theory Spec2Isabelle
  imports Complex_Main "HOL-Library.Word" "HOL-Library.Log_Nat"
begin

unbundle bit_operations_syntax

section \<open>Python values and exceptions\<close>

text \<open>
  The exceptions the modelled code can raise. A function of the source that can raise
  returns \<open>error + 'a\<close>, with \<open>Inl\<close> for the exception.
\<close>

datatype error = IndexError | ValueError | ZeroDivisionError | OSError | KeyError

type_synonym byte = "8 word"

section \<open>The display driver: colour conversion\<close>

text \<open>
  \<open>bytes(xs)\<close> of Python: every element must be in \<open>range(256)\<close>, otherwise
  ValueError.
\<close>

definition py_bytes :: "int list \<Rightarrow> error + byte list" where
  "py_bytes xs =
     (if list_all (\<lambda>v. 0 \<le> v \<and> v < 256) xs then Inr (map word_of_int xs) else Inl ValueError)"

text \<open>
  \<open>ST7789Display._convert_to_rgb565\<close>: the loop \<open>for i in range(0, len(rgb_data), 3)\<close>
  reads \<open>rgb_data[i]\<close>, \<open>rgb_data[i + 1]\<close> and \<open>rgb_data[i + 2]\<close>; a buffer whose
  length is not a multiple of 3 ends in an IndexError. The channel values are Python
  integers, so the shifts are those of \<open>int\<close>.
\<close>

fun rgb565_loop :: "byte list \<Rightarrow> error + int list" where
  "rgb565_loop [] = Inr []"
| "rgb565_loop (r0 # g0 # b0 # rest) =
     (let r = drop_bit 3 (uint r0);
          g = drop_bit 2 (uint g0);
          b = drop_bit 3 (uint b0);
          pixel = (push_bit 11 r) OR (push_bit 5 g) OR b
      in case rgb565_loop rest of
           Inl e \<Rightarrow> Inl e
         | Inr out \<Rightarrow> Inr (drop_bit 8 pixel # (pixel AND 0xFF) # out))"
| "rgb565_loop _ = Inl IndexError"

definition convert_to_rgb565 :: "byte list \<Rightarrow> error + byte list" where
  "convert_to_rgb565 rgb_data =
     (case rgb565_loop rgb_data of Inl e \<Rightarrow> Inl e | Inr out \<Rightarrow> py_bytes out)"

text \<open>
  The packing as the specification words it: a 16-bit word with 5 bits of red, 6 of green
  and 5 of blue, each channel truncated, sent high byte first. \<open>tobytes\<close> is the
  buffer of an image given as a list of pixels (\<open>Image.tobytes\<close> for mode RGB).
\<close>

definition rgb565_word :: "byte \<Rightarrow> byte \<Rightarrow> byte \<Rightarrow> 16 word" where
  "rgb565_word r g b =
     push_bit 11 (ucast (drop_bit 3 r)) OR push_bit 5 (ucast (drop_bit 2 g)) OR ucast (drop_bit 3 b)"

definition big_endian16 :: "16 word \<Rightarrow> byte list" where
  "big_endian16 w = [ucast (drop_bit 8 w), ucast w]"

definition tobytes :: "(byte \<times> byte \<times> byte) list \<Rightarrow> byte list" where
  "tobytes ps = concat (map (\<lambda>(r, g, b). [r, g, b]) ps)"

section \<open>The display driver: bus transport\<close>

text \<open>
  The state of the bus: the level of the data/command line and the calls of
  \<open>spi.writebytes\<close> so far, each with the level the line had when the bytes were
  written (low selects command mode, high data mode).
\<close>

datatype level = LOW | HIGH

record bus =
  dc_pin :: level
  spi_writes :: "(level \<times> byte list) list"

definition gpio_output_dc :: "level \<Rightarrow> bus \<Rightarrow> bus" where
  "gpio_output_dc v s = s\<lparr>dc_pin := v\<rparr>"

definition spi_writebytes :: "byte list \<Rightarrow> bus \<Rightarrow> bus" where
  "spi_writebytes xs s = s\<lparr>spi_writes := spi_writes s @ [(dc_pin s, xs)]\<rparr>"

text \<open>
  \<open>_write_command\<close>, \<open>_write_data\<close> and \<open>_write_command_data\<close> of the driver
  (without the leading underscore). \<open>_write_data\<close> is only called with lists here;
  \<open>if data:\<close> holds for a list that is not empty.
\<close>

definition write_command :: "byte \<Rightarrow> bus \<Rightarrow> bus" where
  "write_command cmd s = spi_writebytes [cmd] (gpio_output_dc LOW s)"

definition write_data :: "byte list \<Rightarrow> bus \<Rightarrow> bus" where
  "write_data data s = spi_writebytes data (gpio_output_dc HIGH s)"

definition write_command_data :: "byte \<Rightarrow> byte list \<Rightarrow> bus \<Rightarrow> bus" where
  "write_command_data cmd data s =
     (let s1 = write_command cmd s in if data \<noteq> [] then write_data data s1 else s1)"

text \<open>
  \<open>_send_image_data\<close>: the two address windows, the memory-write command, then the
  loop \<open>for i in range(0, len(image_data), chunk_size)\<close> writing the slice
  \<open>image_data[i : i + chunk_size]\<close>.
\<close>

definition chunk_size :: nat where
  "chunk_size = 4096"

function send_chunks :: "nat \<Rightarrow> byte list \<Rightarrow> bus \<Rightarrow> bus" where
  "send_chunks i image_data s =
     (if i < length image_data
      then send_chunks (i + chunk_size) image_data
             (spi_writebytes (take chunk_size (drop i image_data)) s)
      else s)"
  by pat_completeness auto
termination
  by (relation "measure (\<lambda>(i, image_data, s). length image_data - i)")
     (auto simp add: chunk_size_def)

definition send_image_data :: "byte list \<Rightarrow> bus \<Rightarrow> bus" where
  "send_image_data image_data s =
     (let s1 = write_command_data 0x2A [0x00, 0x00, 0x00, 0xEF] s;
          s2 = write_command_data 0x2B [0x00, 0x00, 0x01, 0x17] s1;
          s3 = write_command 0x2C s2;
          s4 = gpio_output_dc HIGH s3
      in send_chunks 0 image_data s4)"

text \<open>
  The writes of the bulk transfer: what \<open>_send_image_data\<close> puts on the bus after
  the five writes that set the address window and start the memory write.
\<close>

definition bulk_chunks :: "byte list \<Rightarrow> bus \<Rightarrow> (level \<times> byte list) list" where
  "bulk_chunks image_data s =
     drop (length (spi_writes s) + 5) (spi_writes (send_image_data image_data s))"

section \<open>The display driver: system information\<close>

text \<open>
  A float of Python is an IEEE double. It is modelled by its value, a rational, and every
  arithmetic operation rounds its exact result to the nearest double, a tie going to the
  even significand: \<open>fl r\<close> scales \<open>r\<close> by the power of two that brings it into
  \<open>[2^52, 2^53)\<close>, rounds to the nearest integer and scales back. The exponent is not
  bounded: infinities, NaN, overflow and subnormal numbers (magnitudes of \<open>2^1024\<close> and
  more, or below \<open>2^-1022\<close>) are outside the model.
\<close>

definition round_half_even :: "rat \<Rightarrow> int" where
  "round_half_even r =
     (let f = \<lfloor>r\<rfloor>; d = r - of_int f
      in if d < 1 / 2 then f
         else if 1 / 2 < d then f + 1
         else if even f then f else f + 1)"

definition ilog2 :: "rat \<Rightarrow> int" where
  "ilog2 r =
     (case quotient_of r of
        (a, b) \<Rightarrow> (let k = bitlen a - bitlen b in if 2 powi k \<le> r then k else k - 1))"

definition fl :: "rat \<Rightarrow> rat" where
  "fl r =
     (if r = 0 then 0
      else (let e = ilog2 \<bar>r\<bar> - 52
            in of_int (round_half_even (r / 2 powi e)) * 2 powi e))"

text \<open>
  The operations of Python on these values. An integer operand of a mixed operation is
  converted to a float first (\<open>float_of_int\<close>); \<open>/\<close> on two integers rounds the exact
  quotient once (\<open>int_truediv\<close> where the divisor cannot be 0, \<open>py_truediv\<close>
  elsewhere); \<open>/\<close> raises ZeroDivisionError on a zero divisor; \<open>int(x)\<close> truncates towards zero; and
  \<open>round(x, 1)\<close> rounds the value of the double to one decimal, a tie going to the even
  digit, and returns the double nearest to that decimal.
\<close>

definition float_of_int :: "int \<Rightarrow> rat" where
  "float_of_int k = fl (of_int k)"

definition int_truediv :: "int \<Rightarrow> int \<Rightarrow> rat" where
  "int_truediv a b = fl (of_int a / of_int b)"

definition py_truediv :: "int \<Rightarrow> int \<Rightarrow> error + rat" where
  "py_truediv a b = (if b = 0 then Inl ZeroDivisionError else Inr (int_truediv a b))"

definition py_add :: "rat \<Rightarrow> rat \<Rightarrow> rat" where
  "py_add a b = fl (a + b)"

definition py_sub :: "rat \<Rightarrow> rat \<Rightarrow> rat" where
  "py_sub a b = fl (a - b)"

definition py_mul :: "rat \<Rightarrow> rat \<Rightarrow> rat" where
  "py_mul a b = fl (a * b)"

definition py_div :: "rat \<Rightarrow> rat \<Rightarrow> error + rat" where
  "py_div a b = (if b = 0 then Inl ZeroDivisionError else Inr (fl (a / b)))"

definition py_int :: "rat \<Rightarrow> int" where
  "py_int r = (if 0 \<le> r then \<lfloor>r\<rfloor> else \<lceil>r\<rceil>)"

definition py_round1 :: "rat \<Rightarrow> rat" where
  "py_round1 r = fl (of_int (round_half_even (r * 10)) / 10)"

text \<open>
  Every function below is one \<open>try\<close> block around its whole body. Its argument is the
  outcome of the reads and conversions the block starts with (opening and reading the
  file, calling the utility, \<open>split\<close>, \<open>float\<close>, \<open>int\<close>): the values read, or the
  exception raised on the way. The arithmetic that follows is the function's own, and its
  exceptions are caught by the same handler.
\<close>

text \<open>
  \<open>get_cpu_usage\<close>: the argument is \<open>(user, nice, system, idle, iowait)\<close>, five
  floats, added from left to right.
\<close>

definition get_cpu_usage :: "error + (rat \<times> rat \<times> rat \<times> rat \<times> rat) \<Rightarrow> rat" where
  "get_cpu_usage src =
     (case src of
        Inl e \<Rightarrow> 0
      | Inr (user, nice, system, idle, iowait) \<Rightarrow>
          (let total = py_add (py_add (py_add (py_add user nice) system) idle) iowait;
               busy = py_add (py_add user nice) system
           in case py_div busy total of
                Inl e \<Rightarrow> 0
              | Inr q \<Rightarrow> py_round1 (py_mul q 100)))"

text \<open>
  \<open>get_memory_usage\<close>: the argument is the dictionary \<open>meminfo\<close> built from the lines
  of the file; a missing key raises KeyError. \<open>used / total\<close> divides two integers.
\<close>

definition dict_get :: "('k \<rightharpoonup> 'v) \<Rightarrow> 'k \<Rightarrow> error + 'v" where
  "dict_get m k = (case m k of None \<Rightarrow> Inl KeyError | Some v \<Rightarrow> Inr v)"

definition get_memory_usage :: "error + (string \<rightharpoonup> int) \<Rightarrow> rat" where
  "get_memory_usage src =
     (case src of
        Inl e \<Rightarrow> 0
      | Inr meminfo \<Rightarrow>
          (case dict_get meminfo ''MemTotal'' of
             Inl e \<Rightarrow> 0
           | Inr total' \<Rightarrow>
               (case dict_get meminfo ''MemFree'' of
                  Inl e \<Rightarrow> 0
                | Inr free \<Rightarrow>
                    (let used = total' - free
                     in case py_truediv used total' of
                          Inl e \<Rightarrow> 0
                        | Inr q \<Rightarrow> py_round1 (py_mul q 100)))))"

text \<open>\<open>get_temperature\<close>: the argument is \<open>int(f.read())\<close>, in thousandths of a degree.\<close>

definition get_temperature :: "error + int \<Rightarrow> rat" where
  "get_temperature src =
     (case src of
        Inl e \<Rightarrow> 0
      | Inr raw \<Rightarrow> (let temp = int_truediv raw 1000 in py_round1 temp))"

text \<open>\<open>get_gpu_temperature\<close>: the argument is the float parsed from the utility's output.\<close>

definition get_gpu_temperature :: "error + rat \<Rightarrow> rat" where
  "get_gpu_temperature src =
     (case src of
        Inl e \<Rightarrow> 0
      | Inr temp \<Rightarrow> py_round1 temp)"

text \<open>
  \<open>get_disk_usage\<close>: the argument is \<open>(stat.total, stat.used)\<close> of
  \<open>shutil.disk_usage\<close>, two integers; the result is the dictionary with the keys
  \<open>percent\<close>, \<open>used\<close> and \<open>total\<close>, here the fields of a record. (\<open>total\<close> is a
  constant of HOL, hence the prime on the local variable of \<open>get_memory_usage\<close>.)
\<close>

record disk_usage =
  disk_percent :: rat
  disk_used :: rat
  disk_total :: rat

definition get_disk_usage :: "error + (int \<times> int) \<Rightarrow> disk_usage" where
  "get_disk_usage src =
     (case src of
        Inl e \<Rightarrow> \<lparr>disk_percent = 0, disk_used = 0, disk_total = 0\<rparr>
      | Inr (stat_total, stat_used) \<Rightarrow>
          (let total_gb = int_truediv stat_total (1024 ^ 3);
               used_gb = int_truediv stat_used (1024 ^ 3)
           in case py_truediv stat_used stat_total of
                Inl e \<Rightarrow> \<lparr>disk_percent = 0, disk_used = 0, disk_total = 0\<rparr>
              | Inr q \<Rightarrow>
                  \<lparr>disk_percent = py_round1 (py_mul q 100), disk_used = py_round1 used_gb,
                   disk_total = py_round1 total_gb\<rparr>))"

text \<open>\<open>get_hostname\<close>: the argument is \<open>f.read().strip()\<close>.\<close>

definition get_hostname :: "error + string \<Rightarrow> string" where
  "get_hostname src = (case src of Inl e \<Rightarrow> ''RPi5'' | Inr name \<Rightarrow> name)"

text \<open>
  \<open>str(n)\<close> for an integer, as an f-string renders it: decimal digits, with a minus
  sign for a negative number.
\<close>

fun str_nat :: "nat \<Rightarrow> string" where
  "str_nat n = (if n < 10 then [''0123456789'' ! n]
                else str_nat (n div 10) @ [''0123456789'' ! (n mod 10)])"

definition str_int :: "int \<Rightarrow> string" where
  "str_int i = (if i < 0 then CHR ''-'' # str_nat (nat (- i)) else str_nat (nat i))"

text \<open>
  \<open>get_uptime\<close>: the argument is \<open>uptime_seconds\<close>, that is
  \<open>int(float(f.read().split()[0]))\<close>. \<open>//\<close> and \<open>%\<close> of Python round towards minus
  infinity, as \<open>div\<close> and \<open>mod\<close> do.
\<close>

definition get_uptime :: "error + int \<Rightarrow> string" where
  "get_uptime src =
     (case src of
        Inl e \<Rightarrow> ''N/A''
      | Inr uptime_seconds \<Rightarrow>
          (let days = uptime_seconds div 86400;
               hours = (uptime_seconds mod 86400) div 3600;
               minutes = (uptime_seconds mod 3600) div 60
           in if days > 0 then str_int days @ ''d '' @ str_int hours @ ''h''
              else if hours > 0 then str_int hours @ ''h '' @ str_int minutes @ ''m''
              else str_int minutes @ ''m''))"

text \<open>\<open>get_ip_address\<close>: the argument is \<open>s.getsockname()[0]\<close>.\<close>

definition get_ip_address :: "error + string \<Rightarrow> string" where
  "get_ip_address src = (case src of Inl e \<Rightarrow> ''N/A'' | Inr ip \<Rightarrow> ip)"

section \<open>The carousel dashboard: state, history and page sequencing\<close>

text \<open>
  \<open>collections.deque(maxlen=n)\<close> and its \<open>append\<close>: the new element goes to the
  right end, and when the deque then holds more than \<open>maxlen\<close> elements the leftmost one
  is dropped. \<open>list(d)\<close> is \<open>items d\<close>, oldest first.
\<close>

record 'a deque =
  maxlen :: nat
  items :: "'a list"

definition deque_new :: "nat \<Rightarrow> 'a deque" where
  "deque_new n = \<lparr>maxlen = n, items = []\<rparr>"

definition deque_append :: "'a \<Rightarrow> 'a deque \<Rightarrow> 'a deque" where
  "deque_append x d =
     (let ys = items d @ [x]
      in d\<lparr>items := (if maxlen d < length ys then tl ys else ys)\<rparr>)"

text \<open>
  The colours of the display and the state of \<open>CarouselDashboard\<close>. A page is
  \<open>(title, stat key, colour, max_val)\<close>. \<open>stats['disk']\<close> starts as the dictionary
  \<open>{'percent': 0}\<close> and holds the number \<open>disk['percent']\<close> after the first update;
  the record keeps the number.
\<close>

type_synonym color = "int \<times> int \<times> int"

definition BLACK :: color where "BLACK = (0, 0, 0)"
definition WHITE :: color where "WHITE = (255, 255, 255)"
definition GREEN :: color where "GREEN = (0, 255, 0)"
definition RED :: color where "RED = (255, 0, 0)"
definition YELLOW :: color where "YELLOW = (255, 255, 0)"
definition CYAN :: color where "CYAN = (0, 255, 255)"
definition BLUE :: color where "BLUE = (0, 0, 255)"
definition MAGENTA :: color where "MAGENTA = (255, 0, 255)"

type_synonym page = "string \<times> string \<times> color \<times> int"

record stats =
  st_cpu :: rat
  st_memory :: rat
  st_cpu_temp :: rat
  st_gpu_temp :: rat
  st_disk :: rat
  st_uptime :: string
  st_ip :: string
  st_hostname :: string

record carousel =
  update_interval :: rat
  page_duration :: rat
  running :: bool
  history :: "string \<rightharpoonup> rat deque"
  stats :: stats
  pages :: "page list"
  current_page :: int
  page_start_time :: rat

text \<open>\<open>CarouselDashboard.__init__\<close>; \<open>now\<close> is the value of \<open>time.time()\<close>.\<close>

definition carousel_init :: "rat \<Rightarrow> rat \<Rightarrow> rat \<Rightarrow> carousel" where
  "carousel_init upd_interval pg_duration now =
     \<lparr>update_interval = upd_interval,
      page_duration = pg_duration,
      running = True,
      history = [''cpu'' \<mapsto> deque_new 20,
                 ''memory'' \<mapsto> deque_new 20,
                 ''cpu_temp'' \<mapsto> deque_new 20,
                 ''gpu_temp'' \<mapsto> deque_new 20,
                 ''disk'' \<mapsto> deque_new 20],
      stats = \<lparr>st_cpu = 0, st_memory = 0, st_cpu_temp = 0, st_gpu_temp = 0, st_disk = 0,
               st_uptime = ''0m'', st_ip = ''N/A'', st_hostname = ''RPi5''\<rparr>,
      pages = [(''CPU'', ''cpu'', RED, 100),
               (''RAM'', ''memory'', CYAN, 100),
               (''CPU Temp'', ''cpu_temp'', YELLOW, 100),
               (''GPU Temp'', ''gpu_temp'', MAGENTA, 100),
               (''Disk'', ''disk'', GREEN, 100)],
      current_page = 0,
      page_start_time = now\<rparr>"

text \<open>
  What the eight collection functions find when \<open>update_stats\<close> calls them: for each,
  the values read or the exception raised.
\<close>

record sources =
  src_cpu :: "error + (rat \<times> rat \<times> rat \<times> rat \<times> rat)"
  src_memory :: "error + (string \<rightharpoonup> int)"
  src_temperature :: "error + int"
  src_gpu_temperature :: "error + rat"
  src_disk :: "error + (int \<times> int)"
  src_uptime :: "error + int"
  src_ip :: "error + string"
  src_hostname :: "error + string"

text \<open>\<open>self.history[key].append(value)\<close>: KeyError when the key is missing.\<close>

definition history_append ::
  "string \<Rightarrow> rat \<Rightarrow> (string \<rightharpoonup> rat deque) \<Rightarrow> error + (string \<rightharpoonup> rat deque)" where
  "history_append key v h =
     (case dict_get h key of
        Inl e \<Rightarrow> Inl e
      | Inr q \<Rightarrow> Inr (h(key \<mapsto> deque_append v q)))"

text \<open>
  \<open>CarouselDashboard.update_stats\<close>: the collection functions return values, so the
  statistics are all stored; an exception while storing into the history ends the
  \<open>try\<close> block there (the handler prints it) and keeps what was stored before.
\<close>

definition update_stats :: "sources \<Rightarrow> carousel \<Rightarrow> carousel" where
  "update_stats srcs d =
     (let disk = get_disk_usage (src_disk srcs);
          st = \<lparr>st_cpu = get_cpu_usage (src_cpu srcs),
                st_memory = get_memory_usage (src_memory srcs),
                st_cpu_temp = get_temperature (src_temperature srcs),
                st_gpu_temp = get_gpu_temperature (src_gpu_temperature srcs),
                st_disk = disk_percent disk,
                st_uptime = get_uptime (src_uptime srcs),
                st_ip = get_ip_address (src_ip srcs),
                st_hostname = get_hostname (src_hostname srcs)\<rparr>;
          d0 = d\<lparr>stats := st\<rparr>
      in case history_append ''cpu'' (st_cpu st) (history d0) of
           Inl e \<Rightarrow> d0
         | Inr h1 \<Rightarrow>
       (case history_append ''memory'' (st_memory st) h1 of
           Inl e \<Rightarrow> d0\<lparr>history := h1\<rparr>
         | Inr h2 \<Rightarrow>
       (case history_append ''cpu_temp'' (st_cpu_temp st) h2 of
           Inl e \<Rightarrow> d0\<lparr>history := h2\<rparr>
         | Inr h3 \<Rightarrow>
       (case history_append ''gpu_temp'' (st_gpu_temp st) h3 of
           Inl e \<Rightarrow> d0\<lparr>history := h3\<rparr>
         | Inr h4 \<Rightarrow>
       (case history_append ''disk'' (st_disk st) h4 of
           Inl e \<Rightarrow> d0\<lparr>history := h4\<rparr>
         | Inr h5 \<Rightarrow> d0\<lparr>history := h5\<rparr>)))))"

text \<open>
  Reading a ring, \<open>list(self.history[key])\<close>, and the sample \<open>update_stats\<close> appends
  to the ring of a key: the value the key's collection function returns.
\<close>

definition read_history :: "string \<Rightarrow> carousel \<Rightarrow> error + rat list" where
  "read_history key d =
     (case dict_get (history d) key of Inl e \<Rightarrow> Inl e | Inr q \<Rightarrow> Inr (items q))"

definition sample :: "string \<Rightarrow> sources \<Rightarrow> rat" where
  "sample key srcs =
     (if key = ''cpu'' then get_cpu_usage (src_cpu srcs)
      else if key = ''memory'' then get_memory_usage (src_memory srcs)
      else if key = ''cpu_temp'' then get_temperature (src_temperature srcs)
      else if key = ''gpu_temp'' then get_gpu_temperature (src_gpu_temperature srcs)
      else disk_percent (get_disk_usage (src_disk srcs)))"

definition history_keys :: "string list" where
  "history_keys = [''cpu'', ''memory'', ''cpu_temp'', ''gpu_temp'', ''disk'']"

text \<open>
  \<open>update_page\<close>, the same in the carousel, pro and premium dashboards. \<open>t1\<close> and
  \<open>t2\<close> are the two values of \<open>time.time()\<close>, the first to compute \<open>elapsed\<close>, the
  second stored as the new start time. \<open>%\<close> raises ZeroDivisionError for an empty page
  list.
\<close>

definition update_page :: "rat \<Rightarrow> rat \<Rightarrow> carousel \<Rightarrow> error + carousel" where
  "update_page t1 t2 d =
     (let elapsed = t1 - page_start_time d
      in if page_duration d \<le> elapsed
         then (if length (pages d) = 0 then Inl ZeroDivisionError
               else Inr (d\<lparr>current_page := (current_page d + 1) mod int (length (pages d)),
                           page_start_time := t2\<rparr>))
         else Inr d)"


text \<open>A concrete set of sources, two of them failing, for evaluating the model.\<close>

definition src0 :: sources where
  "src0 = \<lparr>src_cpu = Inr (10, 0, 5, 85, 0), src_memory = Inl OSError,
           src_temperature = Inr 45000, src_gpu_temperature = Inl OSError,
           src_disk = Inr (100, 25), src_uptime = Inr 93784,
           src_ip = Inl OSError, src_hostname = Inr ''pi''\<rparr>"

section \<open>The drawing surface\<close>

text \<open>
  The pixel buffer belongs to the imaging library; the dashboards only call
  \<open>draw.rectangle\<close>, \<open>draw.line\<close> and \<open>draw.text\<close> on it through the three methods of
  the driver. A drawing routine is modelled by the calls it makes, in order, and by the
  exception that ended it, if any. The text of a call is kept as the parts of its
  f-string: literal text and formatted values.
\<close>

datatype font = font_small | font_medium | font_large | font_xlarge

datatype fpart = Lit string | Num rat

datatype draw_call =
    Rectangle rat rat rat rat "color option" "color option"
  | Line rat rat rat rat color int
  | Text rat rat "fpart list" font color string

type_synonym drawing = "draw_call list \<times> error option"

text \<open>
  \<open>ST7789Display.draw_text\<close>, \<open>draw_line\<close> and \<open>draw_rectangle\<close> with their defaults:
  the medium font, white, the anchor \<open>lt\<close>, and \<open>outline or color\<close> for the outline
  of a rectangle. The arguments of \<open>Rectangle\<close> are the corners, the outline and the
  fill; those of \<open>Line\<close> the end points, the colour and the width.
\<close>

definition draw_text ::
  "rat \<Rightarrow> rat \<Rightarrow> fpart list \<Rightarrow> font option \<Rightarrow> color option \<Rightarrow> string option \<Rightarrow> draw_call" where
  "draw_text x y text fnt color anchor =
     Text x y text (case fnt of None \<Rightarrow> font_medium | Some f \<Rightarrow> f)
       (case color of None \<Rightarrow> WHITE | Some c \<Rightarrow> c)
       (case anchor of None \<Rightarrow> ''lt'' | Some a \<Rightarrow> a)"

definition draw_line ::
  "rat \<Rightarrow> rat \<Rightarrow> rat \<Rightarrow> rat \<Rightarrow> color option \<Rightarrow> int \<Rightarrow> draw_call" where
  "draw_line x1 y1 x2 y2 color width =
     Line x1 y1 x2 y2 (case color of None \<Rightarrow> WHITE | Some c \<Rightarrow> c) width"

definition draw_rectangle ::
  "rat \<Rightarrow> rat \<Rightarrow> rat \<Rightarrow> rat \<Rightarrow> color option \<Rightarrow> color option \<Rightarrow> color option \<Rightarrow> draw_call" where
  "draw_rectangle x1 y1 x2 y2 color outline fill =
     (let color' = (case color of None \<Rightarrow> WHITE | Some c \<Rightarrow> c)
      in Rectangle x1 y1 x2 y2 (case outline of None \<Rightarrow> Some color' | Some oc \<Rightarrow> Some oc) fill)"

text \<open>
  Sequencing: the second routine runs only when the first returned normally. A
  \<open>for\<close> loop whose body can raise stops at the first exception.
\<close>

definition then_draw :: "drawing \<Rightarrow> drawing \<Rightarrow> drawing" where
  "then_draw a b =
     (case a of
        (cs, Some e) \<Rightarrow> (cs, Some e)
      | (cs, None) \<Rightarrow> (case b of (cs', r) \<Rightarrow> (cs @ cs', r)))"

fun for_each :: "('i \<Rightarrow> drawing) \<Rightarrow> 'i list \<Rightarrow> drawing" where
  "for_each body [] = ([], None)"
| "for_each body (i # rest) = then_draw (body i) (for_each body rest)"

text \<open>
  \<open>range(start, stop, step)\<close>. The steps of the source are the literals 1, 10, 20 and
  -1; a step of 0, a ValueError in Python, does not occur and gives the empty list here.
\<close>

definition py_range :: "int \<Rightarrow> int \<Rightarrow> int \<Rightarrow> int list" where
  "py_range start stop step =
     (if 0 < step
      then map (\<lambda>k. start + int k * step) [0 ..< nat ((stop - start + step - 1) div step)]
      else if step < 0
      then map (\<lambda>k. start + int k * step) [0 ..< nat ((start - stop - step - 1) div (- step))]
      else [])"

section \<open>The graphs of the carousel dashboards\<close>

text \<open>
  Two expressions that every graph routine computes: \<open>x + int(i * point_width)\<close>, the
  horizontal position of sample \<open>i\<close>, and \<open>int((v / max_val) * height)\<close>, the height of
  a sample \<open>v\<close> in pixels. \<open>x\<close>, \<open>i\<close>, \<open>max_val\<close> and \<open>height\<close> are integers, the
  sample and \<open>point_width\<close> floats; the division raises ZeroDivisionError for a ceiling
  of 0.
\<close>

definition point_x :: "int \<Rightarrow> rat \<Rightarrow> nat \<Rightarrow> int" where
  "point_x x point_width i = x + py_int (py_mul (float_of_int (int i)) point_width)"

definition scaled_height :: "int \<Rightarrow> int \<Rightarrow> rat \<Rightarrow> error + int" where
  "scaled_height height max_val v =
     (case py_div v (float_of_int max_val) of
        Inl e \<Rightarrow> Inl e
      | Inr q \<Rightarrow> Inr (py_int (py_mul q (float_of_int height))))"

text \<open>
  \<open>CarouselDashboard.draw_graph\<close>. \<open>x\<close>, \<open>y\<close>, \<open>width\<close>, \<open>height\<close>, \<open>max_val\<close>
  and \<open>animation_frame\<close> are integers, the samples floats. First the body of the loop
  over \<open>i\<close>, then the routine.
\<close>

definition draw_graph_segment ::
  "int \<Rightarrow> int \<Rightarrow> int \<Rightarrow> int \<Rightarrow> rat list \<Rightarrow> int \<Rightarrow> color \<Rightarrow> int \<Rightarrow> rat \<Rightarrow> nat \<Rightarrow> drawing" where
  "draw_graph_segment x y width height values max_val color animation_shift point_width i =
     (let x1 = point_x x point_width i - animation_shift
      in case scaled_height height max_val (values ! i) of
           Inl e \<Rightarrow> ([], Some e)
         | Inr h1 \<Rightarrow>
     (let y1 = y + height - h1;
          x2 = point_x x point_width (i + 1) - animation_shift
      in case scaled_height height max_val (values ! (i + 1)) of
           Inl e \<Rightarrow> ([], Some e)
         | Inr h2 \<Rightarrow>
     (let y2 = y + height - h2
      in if x \<le> x2 \<and> x1 \<le> x + width
         then ([draw_line (of_int x1) (of_int y1) (of_int x2) (of_int y2) (Some color) 2]
               @ (if int i mod 4 = 0
                  then [draw_rectangle (of_int (x1 - 2)) (of_int (y1 - 2)) (of_int (x1 + 2))
                          (of_int (y1 + 2)) None None (Some color)]
                  else []), None)
         else ([], None))))"

definition draw_graph ::
  "int \<Rightarrow> int \<Rightarrow> int \<Rightarrow> int \<Rightarrow> rat list \<Rightarrow> int \<Rightarrow> color \<Rightarrow> int \<Rightarrow> drawing" where
  "draw_graph x y width height data max_val color animation_frame =
     (if length data < 2 then ([], None)
      else
        (let values = data;
             animation_shift = animation_frame;
             point_width = int_truediv width (int (length values))
         in then_draw
              ([draw_rectangle (of_int x) (of_int y) (of_int (x + width)) (of_int (y + height))
                  None None (Some BLACK)]
               @ map (\<lambda>i. draw_line (of_int x) (of_int (y + i)) (of_int (x + width)) (of_int (y + i))
                             (Some (30, 30, 30)) 1) (py_range 0 height 20)
               @ [draw_line (of_int x) (of_int (y + height)) (of_int (x + width))
                    (of_int (y + height)) (Some color) 2,
                  draw_line (of_int x) (of_int y) (of_int x) (of_int (y + height)) (Some color) 2],
               None)
           (then_draw
              (for_each (draw_graph_segment x y width height values max_val color
                           animation_shift point_width)
                 [0 ..< length values - 1])
              (if 0 < length values
               then (let new_x = x + width - animation_shift
                     in case scaled_height height max_val (last values) of
                          Inl e \<Rightarrow> ([], Some e)
                        | Inr h \<Rightarrow>
                            (let new_y = y + height - h
                             in if x \<le> new_x \<and> new_x \<le> x + width
                                then ([draw_rectangle (of_int (new_x - 2)) (of_int (new_y - 2))
                                         (of_int (new_x + 2)) (of_int (new_y + 2))
                                         None None (Some color)], None)
                                else ([], None)))
               else ([], None)))))"

text \<open>
  \<open>ProCarouselDashboard.draw_graph\<close>: no animation shift, and a pulsing square on the
  latest point whose size follows the animation counter. \<open>new_x\<close> is a float.
\<close>

definition pro_draw_graph_segment ::
  "int \<Rightarrow> int \<Rightarrow> int \<Rightarrow> int \<Rightarrow> rat list \<Rightarrow> int \<Rightarrow> color \<Rightarrow> rat \<Rightarrow> nat \<Rightarrow> drawing" where
  "pro_draw_graph_segment x y width height values max_val color point_width i =
     (let x1 = point_x x point_width i
      in case scaled_height height max_val (values ! i) of
           Inl e \<Rightarrow> ([], Some e)
         | Inr h1 \<Rightarrow>
     (let y1 = y + height - h1;
          x2 = point_x x point_width (i + 1)
      in case scaled_height height max_val (values ! (i + 1)) of
           Inl e \<Rightarrow> ([], Some e)
         | Inr h2 \<Rightarrow>
     (let y2 = y + height - h2
      in if x \<le> x2 \<and> x1 \<le> x + width
         then ([draw_line (of_int x1) (of_int y1) (of_int x2) (of_int y2) (Some color) 2]
               @ (if int i mod 4 = 0
                  then [draw_rectangle (of_int (x1 - 2)) (of_int (y1 - 2)) (of_int (x1 + 2))
                          (of_int (y1 + 2)) None None (Some color)]
                  else []), None)
         else ([], None))))"

definition pro_draw_graph ::
  "int \<Rightarrow> int \<Rightarrow> int \<Rightarrow> int \<Rightarrow> rat list \<Rightarrow> int \<Rightarrow> color \<Rightarrow> int \<Rightarrow> drawing" where
  "pro_draw_graph x y width height data max_val color animation_counter =
     (if length data < 2 then ([], None)
      else
        (let values = data;
             point_width = int_truediv width (int (length values))
         in then_draw
              ([draw_rectangle (of_int x) (of_int y) (of_int (x + width)) (of_int (y + height))
                  None None (Some BLACK)]
               @ map (\<lambda>i. draw_line (of_int x) (of_int (y + i)) (of_int (x + width)) (of_int (y + i))
                             (Some (30, 30, 30)) 1) (py_range 0 height 20)
               @ [draw_line (of_int x) (of_int (y + height)) (of_int (x + width))
                    (of_int (y + height)) (Some color) 2,
                  draw_line (of_int x) (of_int y) (of_int x) (of_int (y + height)) (Some color) 2],
               None)
           (then_draw
              (for_each (pro_draw_graph_segment x y width height values max_val color point_width)
                 [0 ..< length values - 1])
              (if 0 < length values
               then (let new_x = py_sub (float_of_int (x + width)) (fl (point_width / 2))
                     in case scaled_height height max_val (last values) of
                          Inl e \<Rightarrow> ([], Some e)
                        | Inr h \<Rightarrow>
                            (let new_y = y + height - h;
                                 pulse_size = 2 + animation_counter mod 5
                             in ([draw_rectangle (py_sub new_x (float_of_int pulse_size))
                                    (of_int (new_y - pulse_size))
                                    (py_add new_x (float_of_int pulse_size))
                                    (of_int (new_y + pulse_size)) None None (Some color)], None)))
               else ([], None)))))"

section \<open>The graphs of the premium dashboard\<close>

text \<open>
  \<open>PremiumDashboard.draw_bar_chart\<close>: the guard, the background, gradient, grid and
  axes, then one bar for every sample. First the body of the loop over the samples.
\<close>

definition draw_bar ::
  "int \<Rightarrow> int \<Rightarrow> int \<Rightarrow> int \<Rightarrow> rat list \<Rightarrow> int \<Rightarrow> color \<Rightarrow> rat \<Rightarrow> nat \<Rightarrow> drawing" where
  "draw_bar x y width height values max_val color bar_width i =
     (let val = values ! i;
          bar_x = point_x x bar_width i
      in case scaled_height height max_val val of
           Inl e \<Rightarrow> ([], Some e)
         | Inr bar_height \<Rightarrow>
     (let bar_y = y + height - bar_height
      in ([draw_rectangle (of_int (bar_x + 2)) (of_int (bar_y + 1))
             (of_int (bar_x + py_int bar_width - 2)) (of_int (y + height + 1))
             None None (Some (20, 20, 20)),
           draw_rectangle (of_int (bar_x + 2)) (of_int bar_y)
             (of_int (bar_x + py_int bar_width - 2)) (of_int (y + height))
             None (Some WHITE) (Some color)]
          @ map (\<lambda>h. let alpha = int_truediv h (max 1 (bar_height div 3));
                          shade = py_int (py_mul 150 alpha);
                          highlight_color = (min 255 shade, min 255 shade, min 255 shade)
                      in draw_line (of_int (bar_x + 3)) (of_int (bar_y + h))
                           (of_int (bar_x + py_int bar_width - 3)) (of_int (bar_y + h))
                           (Some highlight_color) 1)
              (py_range 0 (bar_height div 3) 1)
          @ [draw_line (of_int (bar_x + 2)) (of_int (bar_y - 1))
               (of_int (bar_x + py_int bar_width - 2)) (of_int (bar_y - 1)) (Some WHITE) 1],
          None)))"

definition draw_bar_chart ::
  "int \<Rightarrow> int \<Rightarrow> int \<Rightarrow> int \<Rightarrow> rat list \<Rightarrow> int \<Rightarrow> color \<Rightarrow> drawing" where
  "draw_bar_chart x y width height data max_val color =
     (if length data < 1 then ([], None)
      else
        (let values = data;
             bar_width = int_truediv width (int (length values))
         in then_draw
              ([draw_rectangle (of_int x) (of_int y) (of_int (x + width)) (of_int (y + height))
                  None None (Some BLACK)]
               @ map (\<lambda>i. let shade = 15 - (i * 10) div (max 1 (height div 4))
                           in draw_line (of_int x) (of_int (y + i)) (of_int (x + width))
                                (of_int (y + i)) (Some (shade, shade, shade)) 1)
                   (py_range 0 (min (height div 4) height) 1)
               @ map (\<lambda>i. let opacity = (if i mod 20 = 0 then 25 else 12)
                           in draw_line (of_int x) (of_int (y + i)) (of_int (x + width))
                                (of_int (y + i)) (Some (opacity, opacity, opacity)) 1)
                   (py_range 0 height 10)
               @ [draw_line (of_int x) (of_int (y + height)) (of_int (x + width))
                    (of_int (y + height)) (Some color) 3,
                  draw_line (of_int x) (of_int y) (of_int x) (of_int (y + height)) (Some color) 3,
                  draw_line (of_int (x + 1)) (of_int (y + height + 1)) (of_int (x + width))
                    (of_int (y + height + 1)) (Some (30, 30, 30)) 1,
                  draw_line (of_int (x + 1)) (of_int (y + 1)) (of_int (x + 1))
                    (of_int (y + height)) (Some (30, 30, 30)) 1],
               None)
              (for_each (draw_bar x y width height values max_val color bar_width)
                 [0 ..< length values])))"

text \<open>
  \<open>PremiumDashboard.draw_smooth_area_graph\<close>. Its loop carries the previous point
  \<open>(prev_x1, prev_y1)\<close> from one sample to the next.
\<close>

fun smooth_area_points ::
  "int \<Rightarrow> int \<Rightarrow> int \<Rightarrow> rat list \<Rightarrow> int \<Rightarrow> color \<Rightarrow> rat \<Rightarrow> nat list \<Rightarrow> int \<Rightarrow> int \<Rightarrow> drawing" where
  "smooth_area_points x y height values max_val color point_width [] prev_x1 prev_y1 = ([], None)"
| "smooth_area_points x y height values max_val color point_width (i # rest) prev_x1 prev_y1 =
     (let x1 = point_x x point_width i
      in case scaled_height height max_val (values ! i) of
           Inl e \<Rightarrow> ([], Some e)
         | Inr h \<Rightarrow>
     (let y1 = y + height - h
      in then_draw
           (if 0 < i
            then ([draw_line (of_int prev_x1) (of_int prev_y1) (of_int x1) (of_int y1)
                     (Some color) 3]
                  @ map (\<lambda>fill_y. let alpha = int_truediv (fill_y - prev_y1)
                                                 (max 1 (y + height - prev_y1));
                                       shade = py_int (py_mul alpha 40)
                                   in draw_line (of_int prev_x1) (of_int fill_y) (of_int x1)
                                        (of_int fill_y) (Some (shade, shade, shade)) 1)
                      (py_range prev_y1 (y + height) 1), None)
            else ([], None))
           (smooth_area_points x y height values max_val color point_width rest x1 y1)))"

definition draw_smooth_area_graph ::
  "int \<Rightarrow> int \<Rightarrow> int \<Rightarrow> int \<Rightarrow> rat list \<Rightarrow> int \<Rightarrow> color \<Rightarrow> int \<Rightarrow> drawing" where
  "draw_smooth_area_graph x y width height data max_val color animation_counter =
     (if length data < 2 then ([], None)
      else
        (let values = data;
             point_width = int_truediv width (int (length values))
         in then_draw
              ([draw_rectangle (of_int x) (of_int y) (of_int (x + width)) (of_int (y + height))
                  None None (Some BLACK)]
               @ map (\<lambda>i. let shade = 15 - (i * 10) div (max 1 (height div 4))
                           in draw_line (of_int x) (of_int (y + i)) (of_int (x + width))
                                (of_int (y + i)) (Some (shade, shade, shade)) 1)
                   (py_range 0 (min (height div 4) height) 1)
               @ map (\<lambda>i. let opacity = (if i mod 20 = 0 then 20 else 10)
                           in draw_line (of_int x) (of_int (y + i)) (of_int (x + width))
                                (of_int (y + i)) (Some (opacity, opacity, opacity)) 1)
                   (py_range 0 height 10)
               @ [draw_line (of_int x) (of_int (y + height)) (of_int (x + width))
                    (of_int (y + height)) (Some color) 3,
                  draw_line (of_int x) (of_int y) (of_int x) (of_int (y + height)) (Some color) 3,
                  draw_line (of_int (x + 1)) (of_int (y + height + 1)) (of_int (x + width))
                    (of_int (y + height + 1)) (Some (30, 30, 30)) 1,
                  draw_line (of_int (x + 1)) (of_int (y + 1)) (of_int (x + 1))
                    (of_int (y + height)) (Some (30, 30, 30)) 1],
               None)
           (then_draw
              (smooth_area_points x y height values max_val color point_width
                 [0 ..< length values] x (y + height))
              (if 0 < length values
               then (let new_x = py_sub (float_of_int (x + width)) (fl (point_width / 2))
                     in case scaled_height height max_val (last values) of
                          Inl e \<Rightarrow> ([], Some e)
                        | Inr h \<Rightarrow>
                            (let new_y = y + height - h;
                                 glow = 4 + animation_counter mod 5
                             in (map (\<lambda>i. let ring_color =
                                                (case color of (r, g, b) \<Rightarrow>
                                                   (py_int (py_mul (float_of_int r) (int_truediv i glow)),
                                                    py_int (py_mul (float_of_int g) (int_truediv i glow)),
                                                    py_int (py_mul (float_of_int b) (int_truediv i glow))))
                                           in draw_rectangle
                                                (py_sub (py_sub new_x (float_of_int i)) 1)
                                                (of_int (new_y - i - 1))
                                                (py_add (py_add new_x (float_of_int i)) 1)
                                                (of_int (new_y + i + 1))
                                                None (Some ring_color) None)
                                   (py_range glow 0 (- 1))
                                 @ [draw_rectangle (py_sub new_x 4) (of_int (new_y - 4))
                                      (py_add new_x 4) (of_int (new_y + 4))
                                      None None (Some color),
                                    draw_rectangle (py_sub new_x 3) (of_int (new_y - 3))
                                      (py_add new_x 3) (of_int (new_y + 3))
                                      None (Some WHITE) None], None)))
               else ([], None)))))"

section \<open>The progress bars of the stats dashboards\<close>

text \<open>
  \<open>get_color_for_value\<close>, the same in \<open>StatsDisplay\<close> and \<open>EnhancedStatsDisplay\<close>,
  with the thresholds as a pair.
\<close>

definition get_color_for_value :: "rat \<Rightarrow> rat \<times> rat \<Rightarrow> color" where
  "get_color_for_value v thresholds =
     (if snd thresholds \<le> v then RED
      else if fst thresholds \<le> v then YELLOW
      else GREEN)"

text \<open>
  \<open>StatsDisplay.draw_stats_row\<close>. Neither routine divides by a variable, so neither can
  raise: the result is the list of calls. The fill width is computed here on the exact
  product and quotient, without the rounding of \<open>fl\<close>.
\<close>

definition draw_stats_row ::
  "int \<Rightarrow> string \<Rightarrow> rat \<Rightarrow> string \<Rightarrow> rat \<times> rat \<Rightarrow> draw_call list" where
  "draw_stats_row y label v unit threshold =
     (let color = get_color_for_value v threshold;
          text = [Num v, Lit unit];
          bar_x = 120;
          bar_width = 115;
          bar_height = 6;
          fill_width = py_int (of_int (bar_width - 2) * min v 100 / 100)
      in [draw_text 5 (of_int y) [Lit label, Lit '':''] (Some font_small) (Some CYAN) None,
          draw_text 70 (of_int y) text (Some font_small) (Some color) None,
          draw_rectangle (of_int bar_x) (of_int (y - 1)) (of_int (bar_x + bar_width))
            (of_int (y + bar_height - 1)) None (Some WHITE) None]
         @ (if 0 < fill_width
            then [draw_rectangle (of_int (bar_x + 1)) (of_int y) (of_int (bar_x + fill_width))
                    (of_int (y + bar_height - 2)) None None (Some color)]
            else []))"

text \<open>\<open>EnhancedStatsDisplay.draw_full_stat_bar\<close>; its thresholds are the default \<open>(50, 80)\<close>.\<close>

definition draw_full_stat_bar ::
  "int \<Rightarrow> int \<Rightarrow> int \<Rightarrow> string \<Rightarrow> rat \<Rightarrow> string \<Rightarrow> color \<Rightarrow> color \<Rightarrow> color \<Rightarrow> draw_call list" where
  "draw_full_stat_bar x y width label v unit color_normal color_warn color_crit =
     (let label_text = [Lit label, Lit '':''];
          value_text = [Num v, Lit unit];
          bar_x = x;
          bar_y = y + 10;
          bar_width = width;
          bar_height = 8;
          bar_color = (if 80 \<le> v then color_crit
                       else if 50 \<le> v then color_warn
                       else color_normal);
          fill_width = py_int (of_int (bar_width - 2) * min v 100 / 100)
      in [draw_text (of_int x) (of_int y) label_text (Some font_small) (Some CYAN) None,
          draw_text (of_int (x + 70)) (of_int y) value_text (Some font_small)
            (Some (get_color_for_value v (50, 80))) None,
          draw_rectangle (of_int bar_x) (of_int bar_y) (of_int (bar_x + bar_width))
            (of_int (bar_y + bar_height)) None (Some WHITE) (Some BLACK)]
         @ (if 0 < fill_width
            then [draw_rectangle (of_int (bar_x + 1)) (of_int (bar_y + 1))
                    (of_int (bar_x + fill_width)) (of_int (bar_y + bar_height - 1))
                    None None (Some bar_color)]
            else []))"

section \<open>The specification's scaling and fill formulas\<close>

text \<open>
  The specification's words for the line graph, in exact arithmetic: sample \<open>i\<close> of
  \<open>n\<close> is placed linearly across the width of the region, and at the height
  \<open>region_bottom - (value / ceiling) * region_height\<close>, where the bottom of a region
  with top \<open>y\<close> is \<open>y + height\<close>. And the fill width of a progress bar,
  \<open>int((bar_width - 2) * min(value, 100) / 100)\<close>.
\<close>

definition graph_x :: "int \<Rightarrow> int \<Rightarrow> nat \<Rightarrow> nat \<Rightarrow> int" where
  "graph_x x width n i = x + (int i * width) div int n"

definition graph_y :: "int \<Rightarrow> int \<Rightarrow> int \<Rightarrow> rat \<Rightarrow> int" where
  "graph_y y height max_val v = y + height - py_int (v / of_int max_val * of_int height)"

definition fill_width :: "int \<Rightarrow> rat \<Rightarrow> int" where
  "fill_width bar_width v = py_int (of_int (bar_width - 2) * min v 100 / 100)"


text \<open>
  Reading a decimal numeral: the value of a string of digits, most significant first.
\<close>

definition is_digit :: "char \<Rightarrow> bool" where
  "is_digit c = (48 \<le> (of_char c :: nat) \<and> (of_char c :: nat) \<le> 57)"

definition decimal_value :: "string \<Rightarrow> nat" where
  "decimal_value cs = foldl (\<lambda>acc c. 10 * acc + (of_char c - 48)) 0 cs"

section \<open>Colour conversion: proofs\<close>

lemma pixel_eq: "(push_bit 11 (drop_bit 3 (uint r)) OR push_bit 5 (drop_bit 2 (uint g)) OR drop_bit 3 (uint b)) = uint (rgb565_word r g b)"
  unfolding rgb565_word_def
  apply (rule bit_eqI)
  apply (auto simp add: bit_simps uint_word_of_int bit_uint_iff dest: bit_imp_le_length)
  done

lemma rgb565_loop_pixels:
  "rgb565_loop (tobytes ps) =
     Inr (concat (map (\<lambda>(r, g, b). [drop_bit 8 (uint (rgb565_word r g b)),
                                      uint (rgb565_word r g b) AND 0xFF]) ps))"
proof (induction ps)
  case Nil
  show ?case by (simp add: tobytes_def)
next
  case (Cons p ps)
  obtain r g b where p: "p = (r, g, b)" by (cases p) auto
  have step: "rgb565_loop (r # g # b # rest) =
     (case rgb565_loop rest of Inl e \<Rightarrow> Inl e
      | Inr out \<Rightarrow> Inr (drop_bit 8 (uint (rgb565_word r g b)) # (uint (rgb565_word r g b) AND 0xFF) # out))" for rest
    unfolding rgb565_loop.simps Let_def pixel_eq ..
  have "tobytes (p # ps) = r # g # b # tobytes ps" by (simp add: p tobytes_def)
  with Cons show ?case
    by (simp only: step) (simp add: p)
qed

lemma hi_byte: "0 \<le> drop_bit 8 (uint (w :: 16 word)) \<and> drop_bit 8 (uint w) < 256"
proof -
  have "uint w < 2 ^ 16" using uint_bounded [of w] by simp
  then have "uint w div 2 ^ 8 < 2 ^ 8" by simp
  moreover have "0 \<le> uint w div 2 ^ 8" by (simp add: pos_imp_zdiv_nonneg_iff)
  ultimately show ?thesis by (simp add: drop_bit_eq_div)
qed

lemma lo_byte: "0 \<le> uint (w :: 16 word) AND 0xFF \<and> uint w AND 0xFF < 256"
proof -
  have "uint w AND 0xFF = uint w mod 2 ^ 8"
    using take_bit_eq_mask [of 8 "uint w"] by (simp add: take_bit_eq_mod mask_eq_exp_minus_1)
  then show ?thesis by simp
qed

lemma hi_word: "(word_of_int (drop_bit 8 (uint (w :: 16 word))) :: byte) = ucast (drop_bit 8 w)"
  by (rule bit_word_eqI) (auto simp add: bit_simps bit_uint_iff)

lemma lo_word: "(word_of_int (uint (w :: 16 word) AND 0xFF) :: byte) = ucast w"
proof -
  have "(0xFF :: int) = mask 8" by (simp add: mask_eq_exp_minus_1)
  then have "uint w AND 0xFF = take_bit 8 (uint w)"
    by (simp only: take_bit_eq_mask)
  then show ?thesis
    by (simp only:) (rule bit_word_eqI, auto simp add: bit_simps bit_uint_iff)
qed

lemma py_bytes_pixels:
  "py_bytes (concat (map (\<lambda>(r, g, b). [drop_bit 8 (uint (rgb565_word r g b)),
                                      uint (rgb565_word r g b) AND 0xFF]) ps)) =
   Inr (concat (map (\<lambda>(r, g, b). big_endian16 (rgb565_word r g b)) ps))"
proof -
  have "list_all (\<lambda>v. 0 \<le> v \<and> v < 256) (concat (map (\<lambda>(r, g, b). [drop_bit 8 (uint (rgb565_word r g b)),
                                      uint (rgb565_word r g b) AND 0xFF]) ps))"
    by (induction ps) (use hi_byte lo_byte in \<open>auto simp del: drop_bit_eq_div\<close>)
  moreover have "map word_of_int (concat (map (\<lambda>(r, g, b). [drop_bit 8 (uint (rgb565_word r g b)),
                                      uint (rgb565_word r g b) AND 0xFF]) ps)) = 
         concat (map (\<lambda>(r, g, b). big_endian16 (rgb565_word r g b)) ps)"
    by (induction ps) (auto simp add: big_endian16_def hi_word lo_word)
  ultimately show ?thesis by (simp add: py_bytes_def)
qed

text \<open>
  Claim C1. For every buffer of 24-bit RGB pixels the converter returns, without raising,
  the big-endian bytes of the 16-bit words that pack 5 bits of red, 6 of green and 5 of
  blue by truncating every channel (r >> 3, g >> 2, b >> 3). Pure white becomes 0xFFFF and
  pure black 0x0000. The converter is a function of the buffer alone.
\<close>

theorem convert_to_rgb565_packs:
  "convert_to_rgb565 (tobytes ps) =
     Inr (concat (map (\<lambda>(r, g, b). big_endian16 (rgb565_word r g b)) ps))
   \<and> convert_to_rgb565 [255, 255, 255] = Inr [0xFF, 0xFF]
   \<and> convert_to_rgb565 [0, 0, 0] = Inr [0x00, 0x00]"
proof (intro conjI)
  show "convert_to_rgb565 (tobytes ps) =
     Inr (concat (map (\<lambda>(r, g, b). big_endian16 (rgb565_word r g b)) ps))"
    by (simp add: convert_to_rgb565_def rgb565_loop_pixels py_bytes_pixels)
  show "convert_to_rgb565 [255, 255, 255] = Inr [0xFF, 0xFF]"
    by (simp add: convert_to_rgb565_def py_bytes_def)
  show "convert_to_rgb565 [0, 0, 0] = Inr [0x00, 0x00]"
    by (simp add: convert_to_rgb565_def py_bytes_def)
qed

section \<open>Bus transport: proofs\<close>

declare send_chunks.simps [simp del]

lemma send_chunks_writes:
  "\<exists>cs. spi_writes (send_chunks i image_data s) = spi_writes s @ map (Pair (dc_pin s)) cs
        \<and> concat cs = drop i image_data
        \<and> list_all (\<lambda>c. length c \<le> 4096) cs
        \<and> list_all (\<lambda>c. length c = 4096) (butlast cs)
        \<and> list_all (\<lambda>c. c \<noteq> []) cs"
proof (induction i image_data s rule: send_chunks.induct)
  case (1 i image_data s)
  show ?case
  proof (cases "i < length image_data")
    case False
    then show ?thesis
      by (subst send_chunks.simps) (simp)
  next
    case True
    let ?c = "take chunk_size (drop i image_data)"
    let ?s = "spi_writebytes ?c s"
    from 1 [OF True] obtain cs where
      w: "spi_writes (send_chunks (i + chunk_size) image_data ?s) = spi_writes ?s @ map (Pair (dc_pin ?s)) cs"
      and c: "concat cs = drop (i + chunk_size) image_data"
      and le: "list_all (\<lambda>c. length c \<le> 4096) cs"
      and full: "list_all (\<lambda>c. length c = 4096) (butlast cs)"
      and ne: "list_all (\<lambda>c. c \<noteq> []) cs"
      by blast
    have eq: "send_chunks i image_data s = send_chunks (i + chunk_size) image_data ?s"
      using True by (subst send_chunks.simps) simp
    have w': "spi_writes (send_chunks i image_data s) = spi_writes s @ map (Pair (dc_pin s)) (?c # cs)"
      unfolding eq w by (simp add: spi_writebytes_def)
    have c': "concat (?c # cs) = drop i image_data"
      using c by (simp add: add.commute [of i] flip: drop_drop)
    have le': "list_all (\<lambda>c. length c \<le> 4096) (?c # cs)"
      using le by (simp add: chunk_size_def)
    have cne: "?c \<noteq> []" using True by (simp add: chunk_size_def)
    have full': "list_all (\<lambda>c. length c = 4096) (butlast (?c # cs))"
    proof (cases cs)
      case Nil
      then show ?thesis by simp
    next
      case (Cons d ds)
      with ne c have "drop (i + chunk_size) image_data \<noteq> []" by auto
      then have "i + chunk_size < length image_data" by simp
      then have "length ?c = 4096" by (simp add: chunk_size_def)
      with full Cons show ?thesis by simp
    qed
    from w' c' le' full' ne cne show ?thesis
      by (intro exI [of _ "?c # cs"]) simp
  qed
qed

text \<open>
  Claim C2. For every byte sequence given to the bulk transfer, after the five writes that
  address the window the bus receives the chunks of the sequence, all in data mode: their
  concatenation in order is the input, every chunk has at most 4096 bytes and every chunk
  but the last has exactly 4096.
\<close>

theorem send_image_data_chunks:
  "take (length (spi_writes s) + 5) (spi_writes (send_image_data image_data s)) =
     spi_writes s @ [(LOW, [0x2A]), (HIGH, [0x00, 0x00, 0x00, 0xEF]),
                     (LOW, [0x2B]), (HIGH, [0x00, 0x00, 0x01, 0x17]), (LOW, [0x2C])]
   \<and> concat (map snd (bulk_chunks image_data s)) = image_data
   \<and> list_all (\<lambda>w. fst w = HIGH) (bulk_chunks image_data s)
   \<and> list_all (\<lambda>w. length (snd w) \<le> 4096) (bulk_chunks image_data s)
   \<and> list_all (\<lambda>w. length (snd w) = 4096) (butlast (bulk_chunks image_data s))"
proof -
  let ?s4 = "gpio_output_dc HIGH (write_command 0x2C
               (write_command_data 0x2B [0x00, 0x00, 0x01, 0x17]
                 (write_command_data 0x2A [0x00, 0x00, 0x00, 0xEF] s)))"
  have s4w: "spi_writes ?s4 = spi_writes s @ [(LOW, [0x2A]), (HIGH, [0x00, 0x00, 0x00, 0xEF]),
                     (LOW, [0x2B]), (HIGH, [0x00, 0x00, 0x01, 0x17]), (LOW, [0x2C])]"
    by (simp add: gpio_output_dc_def write_command_def write_command_data_def write_data_def
        spi_writebytes_def)
  have s4d: "dc_pin ?s4 = HIGH" by (simp add: gpio_output_dc_def)
  obtain cs where
      w: "spi_writes (send_chunks 0 image_data ?s4) = spi_writes ?s4 @ map (Pair (dc_pin ?s4)) cs"
      and c: "concat cs = drop 0 image_data"
      and le: "list_all (\<lambda>c. length c \<le> 4096) cs"
      and full: "list_all (\<lambda>c. length c = 4096) (butlast cs)"
    using send_chunks_writes [of 0 image_data ?s4] by blast
  have all: "spi_writes (send_image_data image_data s) =
     (spi_writes s @ [(LOW, [0x2A]), (HIGH, [0x00, 0x00, 0x00, 0xEF]),
                     (LOW, [0x2B]), (HIGH, [0x00, 0x00, 0x01, 0x17]), (LOW, [0x2C])]) @ map (Pair HIGH) cs"
    unfolding send_image_data_def Let_def w s4d s4w ..
  have bc: "bulk_chunks image_data s = map (Pair HIGH) cs"
    unfolding bulk_chunks_def all by simp
  have m: "map snd (map (Pair HIGH) cs) = cs" by (simp add: comp_def)
  show ?thesis
    unfolding bc
    using c le full by (simp add: all m list_all_iff map_butlast [symmetric] comp_def)
qed

section \<open>Rounding to doubles: proofs\<close>

lemma bitlen_powi_bounds:
  assumes "0 < a"
  shows "(2::rat) powi bitlen a / 2 \<le> of_int a \<and> of_int a < (2::rat) powi bitlen a"
proof -
  from bitlen_bounds [OF assms] have lo: "2 ^ nat (bitlen a - 1) \<le> a" and hi: "a < 2 ^ nat (bitlen a)"
    by simp_all
  have pos: "1 \<le> bitlen a"
    using assms by (auto simp: bitlen_alt_def)
  have "(2::rat) powi bitlen a = 2 ^ nat (bitlen a)"
    using pos by (simp add: power_int_def)
  moreover have "(2::rat) ^ nat (bitlen a) = 2 * 2 ^ nat (bitlen a - 1)"
  proof -
    from pos have "nat (bitlen a) = Suc (nat (bitlen a - 1))" by simp
    then show ?thesis by (simp only: power_Suc)
  qed
  moreover have "(of_int (2 ^ nat (bitlen a - 1)) :: rat) \<le> of_int a"
    using lo by (simp only: of_int_le_iff)
  moreover have "(of_int a :: rat) < of_int (2 ^ nat (bitlen a))"
    using hi by (simp only: of_int_less_iff)
  ultimately show ?thesis by simp
qed

lemma ilog2_bounds:
  assumes "0 < r"
  shows "2 powi ilog2 r \<le> r \<and> r < 2 powi (ilog2 r + 1)"
proof -
  obtain a b where q: "quotient_of r = (a, b)" by (cases "quotient_of r")
  then have r: "r = of_int a / of_int b" and b: "0 < b"
    by (simp_all add: quotient_of_div quotient_of_denom_pos)
  from assms r b have a: "0 < a" by (simp add: zero_less_divide_iff)
  define A where "A = (2::rat) powi bitlen a"
  define B where "B = (2::rat) powi bitlen b"
  have A: "A / 2 \<le> of_int a" "of_int a < A" and B: "B / 2 \<le> of_int b" "of_int b < B"
    using bitlen_powi_bounds [OF a] bitlen_powi_bounds [OF b] by (simp_all add: A_def B_def)
  have Apos: "0 < A" and Bpos: "0 < B" by (simp_all add: A_def B_def)
  let ?k = "bitlen a - bitlen b"
  have k: "(2::rat) powi ?k = A / B"
    by (simp add: A_def B_def power_int_diff)
  have k1: "(2::rat) powi (?k + 1) = 2 * A / B"
    by (simp add: k power_int_add)
  have km: "(2::rat) powi (?k - 1) = A / (2 * B)"
    by (simp add: k power_int_diff)
  have bp: "(0::rat) < of_int b" using b by simp
  have up: "r < 2 * A / B"
  proof -
    have "of_int a * B < A * (2 * of_int b)"
    proof -
      have "of_int a * B < A * B" using A(2) Bpos by simp
      also have "\<dots> \<le> A * (2 * of_int b)" using B(1) Apos by simp
      finally show ?thesis .
    qed
    then show ?thesis
      unfolding r using bp Bpos by (simp add: field_simps)
  qed
  have lo: "A / (2 * B) \<le> r"
  proof -
    have "A * of_int b \<le> A * B" using B(2) Apos by simp
    also have "\<dots> \<le> 2 * of_int a * B" using A(1) Bpos by simp
    finally have "A * of_int b \<le> of_int a * (2 * B)" by (simp add: mult_ac)
    then show ?thesis
      unfolding r using bp Bpos by (simp add: field_simps)
  qed
  show ?thesis
  proof (cases "2 powi ?k \<le> r")
    case True
    then have "ilog2 r = ?k" by (simp add: ilog2_def q Let_def)
    with True up k1 show ?thesis by simp
  next
    case False
    then have i: "ilog2 r = ?k - 1" by (simp add: ilog2_def q Let_def)
    from False have "r < 2 powi ?k" by simp
    with lo km i show ?thesis by simp
  qed
qed

lemma round_half_even_error:
  "\<bar>of_int (round_half_even s) - s\<bar> \<le> 1 / 2"
proof -
  have "of_int \<lfloor>s\<rfloor> \<le> s" "s < of_int \<lfloor>s\<rfloor> + 1" by linarith+
  then show ?thesis
    by (auto simp add: round_half_even_def Let_def abs_le_iff)
qed

lemma round_half_even_of_int [simp]: "round_half_even (of_int k) = k"
  by (simp add: round_half_even_def)

lemma round_half_even_nonneg: "0 \<le> s \<Longrightarrow> 0 \<le> round_half_even s"
  by (auto simp add: round_half_even_def Let_def)

lemma fl_zero [simp]: "fl 0 = 0"
  by (simp add: fl_def)

lemma fl_nonneg: "0 \<le> r \<Longrightarrow> 0 \<le> fl r"
  by (simp add: fl_def Let_def round_half_even_nonneg)

lemma fl_error: "\<bar>fl r - r\<bar> * 2 ^ 53 \<le> \<bar>r\<bar>"
proof (cases "r = 0")
  case True
  then show ?thesis by simp
next
  case False
  define e where "e = ilog2 \<bar>r\<bar> - 52"
  define P where "P = (2::rat) powi e"
  have Ppos: "0 < P" by (simp add: P_def)
  from False have "0 < \<bar>r\<bar>" by simp
  from ilog2_bounds [OF this] have "2 powi (e + 52) \<le> \<bar>r\<bar>"
    by (simp add: e_def)
  then have lo: "P * 2 ^ 52 \<le> \<bar>r\<bar>"
    by (simp add: P_def power_int_add)
  have f: "fl r = of_int (round_half_even (r / P)) * P"
    using False by (simp add: fl_def Let_def e_def P_def)
  have "fl r - r = (of_int (round_half_even (r / P)) - r / P) * P"
    using Ppos by (simp add: f field_simps)
  then have "\<bar>fl r - r\<bar> = \<bar>of_int (round_half_even (r / P)) - r / P\<bar> * P"
    using Ppos by (simp add: abs_mult)
  also have "\<dots> \<le> 1 / 2 * P"
    using round_half_even_error [of "r / P"] Ppos by (intro mult_right_mono) simp_all
  finally have "\<bar>fl r - r\<bar> * 2 ^ 53 \<le> 1 / 2 * P * 2 ^ 53" by simp
  also have "\<dots> = P * 2 ^ 52" by simp
  finally show ?thesis using lo by simp
qed

lemma fl_of_int:
  assumes "\<bar>k\<bar> < 2 ^ 53"
  shows "fl (of_int k) = of_int k"
proof (cases "k = 0")
  case True
  then show ?thesis by simp
next
  case False
  define e where "e = ilog2 \<bar>of_int k\<bar> - 52"
  have pos: "(0::rat) < \<bar>of_int k\<bar>" using False by simp
  have "2 powi (e + 52) \<le> \<bar>of_int k :: rat\<bar>"
    using ilog2_bounds [OF pos] by (simp add: e_def)
  also have "\<dots> < 2 ^ 53"
  proof -
    have "(of_int \<bar>k\<bar> :: rat) < of_int (2 ^ 53)" using assms by (simp only: of_int_less_iff)
    then show ?thesis by simp
  qed
  finally have "(2::rat) powi (e + 52) < 2 powi 53" by simp
  then have "e + 52 < 53" by (rule power_int_le_imp_less_exp [rotated]) simp_all
  then have e: "e \<le> 0" by simp
  define n where "n = nat (- e)"
  have en: "e = - int n" using e by (simp add: n_def)
  have P: "(2::rat) powi e = 1 / 2 ^ n"
    unfolding en by (simp add: power_int_minus divide_inverse)
  have "of_int k / (2::rat) powi e = of_int (k * 2 ^ n)"
    by (simp add: P)
  then have "round_half_even (of_int k / 2 powi e) = k * 2 ^ n"
    by (simp only: round_half_even_of_int)
  then have "fl (of_int k) = of_int (k * 2 ^ n) * (1 / 2 ^ n)"
    using False by (simp add: fl_def Let_def e_def [symmetric] P)
  then show ?thesis by simp
qed

lemma fl_eq_0_iff [simp]: "fl r = 0 \<longleftrightarrow> r = 0"
proof
  assume "fl r = 0"
  with fl_error [of r] have "\<bar>r\<bar> * 2 ^ 53 \<le> \<bar>r\<bar>" by simp
  then show "r = 0" by simp
qed simp

lemma float_of_int_exact: "\<bar>k\<bar> < 2 ^ 53 \<Longrightarrow> float_of_int k = of_int k"
  by (simp add: float_of_int_def fl_of_int)

lemma float_of_int_eq_0_iff [simp]: "float_of_int k = 0 \<longleftrightarrow> k = 0"
  by (simp add: float_of_int_def)

section \<open>System information: proofs\<close>

declare str_nat.simps [simp del]

lemma str_nat_digit: "n < 10 \<Longrightarrow> str_nat n = [''0123456789'' ! n]"
  by (subst str_nat.simps) simp

lemma digit_char:
  assumes "d < 10"
  shows "is_digit (''0123456789'' ! d) \<and> (of_char (''0123456789'' ! d) :: nat) - 48 = d
     \<and> (0 < d \<longrightarrow> ''0123456789'' ! d \<noteq> CHR ''0'')"
proof -
  from assms have "d \<in> {0, 1, 2, 3, 4, 5, 6, 7, 8, 9}" by auto
  then show ?thesis
    by (auto simp add: is_digit_def)
qed

lemma decimal_value_snoc:
  "decimal_value (cs @ [c]) = 10 * decimal_value cs + (of_char c - 48)"
  by (simp add: decimal_value_def)

lemma str_nat_decimal:
  "decimal_value (str_nat n) = n \<and> list_all is_digit (str_nat n) \<and> str_nat n \<noteq> []
   \<and> (0 < n \<longrightarrow> hd (str_nat n) \<noteq> CHR ''0'')"
proof (induction n rule: str_nat.induct)
  case (1 n)
  show ?case
  proof (cases "n < 10")
    case True
    have s: "str_nat n = [''0123456789'' ! n]" using True by (rule str_nat_digit)
    show ?thesis
      using digit_char [OF True] by (simp add: s decimal_value_def)
  next
    case False
    let ?q = "n div 10"
    have s: "str_nat n = str_nat ?q @ [''0123456789'' ! (n mod 10)]"
      using False by (subst str_nat.simps) simp
    have q: "0 < ?q" using False by simp
    from 1 [OF False] have ih: "decimal_value (str_nat ?q) = ?q" "list_all is_digit (str_nat ?q)"
      "str_nat ?q \<noteq> []" "hd (str_nat ?q) \<noteq> CHR ''0''"
      using q by simp_all
    have m: "n mod 10 < 10" by simp
    show ?thesis
      using ih digit_char [OF m] by (simp add: s decimal_value_snoc)
  qed
qed

text \<open>
  Claim C10. For an uptime of \<open>s\<close> whole seconds, with \<open>d = s // 86400\<close>,
  \<open>h = (s % 86400) // 3600\<close> and \<open>m = (s % 3600) // 60\<close>, \<open>get_uptime\<close> returns
  "{d}d {h}h" when d > 0, else "{h}h {m}m" when h > 0, else "{m}m"; it is a function of
  \<open>s\<close> alone. Said with the parts of the uptime: for \<open>dd\<close> days, \<open>hh < 24\<close> hours,
  \<open>mm < 60\<close> minutes and \<open>ss < 60\<close> seconds the numbers printed are \<open>dd\<close>,
  \<open>hh\<close> and \<open>mm\<close>. A number that is not negative is printed as its decimal numeral:
  digits only, at least one, no leading zero except for 0 itself, and read back as a
  decimal numeral they give the number.
\<close>

theorem get_uptime_format:
  "get_uptime (Inr s) =
     (let d = s div 86400; h = (s mod 86400) div 3600; m = (s mod 3600) div 60
      in if 0 < d then str_int d @ ''d '' @ str_int h @ ''h''
         else if 0 < h then str_int h @ ''h '' @ str_int m @ ''m''
         else str_int m @ ''m'')
   \<and> (0 \<le> dd \<and> 0 \<le> hh \<and> hh < 24 \<and> 0 \<le> mm \<and> mm < 60 \<and> 0 \<le> ss \<and> ss < 60 \<longrightarrow>
        get_uptime (Inr (dd * 86400 + hh * 3600 + mm * 60 + ss)) =
          (if 0 < dd then str_int dd @ ''d '' @ str_int hh @ ''h''
           else if 0 < hh then str_int hh @ ''h '' @ str_int mm @ ''m''
           else str_int mm @ ''m''))
   \<and> (0 \<le> k \<longrightarrow>
        int (decimal_value (str_int k)) = k \<and> list_all is_digit (str_int k)
        \<and> str_int k \<noteq> [] \<and> (0 < k \<longrightarrow> hd (str_int k) \<noteq> CHR ''0''))"
proof (intro conjI impI)
  show "get_uptime (Inr s) =
     (let d = s div 86400; h = (s mod 86400) div 3600; m = (s mod 3600) div 60
      in if 0 < d then str_int d @ ''d '' @ str_int h @ ''h''
         else if 0 < h then str_int h @ ''h '' @ str_int m @ ''m''
         else str_int m @ ''m'')"
    by (simp add: get_uptime_def)
next
  assume r: "0 \<le> dd \<and> 0 \<le> hh \<and> hh < 24 \<and> 0 \<le> mm \<and> mm < 60 \<and> 0 \<le> ss \<and> ss < 60"
  let ?s = "dd * 86400 + hh * 3600 + mm * 60 + ss"
  let ?r = "hh * 3600 + mm * 60 + ss"
  from r have r1: "0 \<le> ?r" "?r < 86400" by auto
  have s1: "?s = dd * 86400 + ?r" by simp
  have d: "?s div 86400 = dd"
    unfolding s1 using r1 by (simp add: div_pos_pos_trivial)
  have m1: "?s mod 86400 = ?r"
    unfolding s1 using r1 by (simp add: mod_pos_pos_trivial)
  from r have r2: "0 \<le> mm * 60 + ss" "mm * 60 + ss < 3600" by auto
  have h: "?r div 3600 = hh"
    using r2 by (simp add: div_pos_pos_trivial add.assoc)
  have s2: "?s = (dd * 24 + hh) * 3600 + (mm * 60 + ss)" by simp
  have "((dd * 24 + hh) * 3600 + (mm * 60 + ss)) mod 3600 = (mm * 60 + ss) mod 3600"
    by (simp only: mod_mult_self3)
  then have m2: "?s mod 3600 = mm * 60 + ss"
    unfolding s2 using r2 by (simp only: mod_pos_pos_trivial)
  have m: "(mm * 60 + ss) div 60 = mm"
    using r by (simp add: div_pos_pos_trivial)
  show "get_uptime (Inr ?s) =
          (if 0 < dd then str_int dd @ ''d '' @ str_int hh @ ''h''
           else if 0 < hh then str_int hh @ ''h '' @ str_int mm @ ''m''
           else str_int mm @ ''m'')"
    unfolding get_uptime_def sum.case Let_def d m1 h m2 m ..
next
  assume k: "0 \<le> k"
  then have s: "str_int k = str_nat (nat k)" by (simp add: str_int_def)
  show "int (decimal_value (str_int k)) = k"
    using k str_nat_decimal [of "nat k"] by (simp add: s)
  show "list_all is_digit (str_int k)"
    using str_nat_decimal [of "nat k"] by (simp add: s)
  show "str_int k \<noteq> []"
    using str_nat_decimal [of "nat k"] by (simp add: s)
  show "hd (str_int k) \<noteq> CHR ''0''" if "0 < k"
    using that str_nat_decimal [of "nat k"] by (simp add: s)
qed

theorem get_uptime_format_witness:
  "get_uptime (Inr 1080000) = ''12d 12h''
   \<and> get_uptime (Inr 86399) = ''23h 59m''
   \<and> get_uptime (Inr 3784) = ''1h 3m''
   \<and> get_uptime (Inr 59) = ''0m''
   \<and> get_uptime (Inr 8640000015) = ''100000d 0h''
   \<and> decimal_value (str_int 1080000) = 1080000
   \<and> str_int 1080000 = ''1080000''"
  using get_uptime_format [of 1080000 12 12 0 0 1080000]
    get_uptime_format [of 86399 0 23 59 59 0]
    get_uptime_format [of 3784 0 1 3 4 0]
    get_uptime_format [of 59 0 0 0 59 0]
    get_uptime_format [of 8640000015 100000 0 0 15 0]
  by (simp add: str_int_def str_nat.simps)

lemma update_stats_stats:
  "stats (update_stats srcs d) =
     \<lparr>st_cpu = get_cpu_usage (src_cpu srcs),
      st_memory = get_memory_usage (src_memory srcs),
      st_cpu_temp = get_temperature (src_temperature srcs),
      st_gpu_temp = get_gpu_temperature (src_gpu_temperature srcs),
      st_disk = disk_percent (get_disk_usage (src_disk srcs)),
      st_uptime = get_uptime (src_uptime srcs),
      st_ip = get_ip_address (src_ip srcs),
      st_hostname = get_hostname (src_hostname srcs)\<rparr>"
  by (simp add: update_stats_def Let_def split: sum.splits)

text \<open>
  Claim C8 says that every collection function returns 0 or "N/A" when its source fails.
  \<open>get_hostname\<close> returns "RPi5" then.
\<close>

theorem get_hostname_default_counterexample:
  "get_hostname (Inl OSError) = ''RPi5'' \<and> get_hostname (Inl OSError) \<noteq> ''N/A''"
  by (simp add: get_hostname_def)

text \<open>
  Claim C8, amended. When its source fails, every collection function returns its default
  instead of raising: 0 for the CPU and memory usage and for the two temperatures, the
  dictionary of zeros for the disk, "N/A" for the uptime and the IP address, and "RPi5"
  for the hostname. So in \<open>update_stats\<close> the failure of one source changes the
  statistic of that field to its default and leaves every other field as it would be.
\<close>

theorem collectors_default_on_failure:
  "get_cpu_usage (Inl e) = 0
   \<and> get_memory_usage (Inl e) = 0
   \<and> get_temperature (Inl e) = 0
   \<and> get_gpu_temperature (Inl e) = 0
   \<and> get_disk_usage (Inl e) = \<lparr>disk_percent = 0, disk_used = 0, disk_total = 0\<rparr>
   \<and> get_hostname (Inl e) = ''RPi5''
   \<and> get_uptime (Inl e) = ''N/A''
   \<and> get_ip_address (Inl e) = ''N/A''
   \<and> stats (update_stats (srcs\<lparr>src_cpu := Inl e\<rparr>) d) = (stats (update_stats srcs d))\<lparr>st_cpu := 0\<rparr>
   \<and> stats (update_stats (srcs\<lparr>src_memory := Inl e\<rparr>) d) = (stats (update_stats srcs d))\<lparr>st_memory := 0\<rparr>
   \<and> stats (update_stats (srcs\<lparr>src_temperature := Inl e\<rparr>) d) = (stats (update_stats srcs d))\<lparr>st_cpu_temp := 0\<rparr>
   \<and> stats (update_stats (srcs\<lparr>src_gpu_temperature := Inl e\<rparr>) d) = (stats (update_stats srcs d))\<lparr>st_gpu_temp := 0\<rparr>
   \<and> stats (update_stats (srcs\<lparr>src_disk := Inl e\<rparr>) d) = (stats (update_stats srcs d))\<lparr>st_disk := 0\<rparr>
   \<and> stats (update_stats (srcs\<lparr>src_hostname := Inl e\<rparr>) d) = (stats (update_stats srcs d))\<lparr>st_hostname := ''RPi5''\<rparr>
   \<and> stats (update_stats (srcs\<lparr>src_uptime := Inl e\<rparr>) d) = (stats (update_stats srcs d))\<lparr>st_uptime := ''N/A''\<rparr>
   \<and> stats (update_stats (srcs\<lparr>src_ip := Inl e\<rparr>) d) = (stats (update_stats srcs d))\<lparr>st_ip := ''N/A''\<rparr>"
  by (simp add: update_stats_stats)
    (simp add: get_cpu_usage_def get_memory_usage_def get_temperature_def
      get_gpu_temperature_def get_disk_usage_def get_hostname_def get_uptime_def
      get_ip_address_def)

section \<open>History ring: proofs\<close>

lemma deque_append_maxlen [simp]: "maxlen (deque_append x d) = maxlen d"
  by (simp add: deque_append_def Let_def)

lemma fold_deque_append_maxlen [simp]: "maxlen (fold deque_append xs d) = maxlen d"
  by (induction xs arbitrary: d) simp_all

lemma drop_last_step:
  "drop (length (drop (length ys - m) ys @ [x]) - m) (drop (length ys - m) ys @ [x]) =
   drop (length (ys @ [x]) - m) (ys @ [x])"
proof (cases "length ys \<le> m")
  case True
  then show ?thesis by simp
next
  case False
  then have gt: "m < length ys" by simp
  show ?thesis
  proof (cases "m = 0")
    case True
    then show ?thesis by simp
  next
    case False
    with gt have a: "length ys - m < length ys" and b: "Suc (length ys) - m = Suc (length ys - m)"
      and c: "Suc (length ys - (length ys - m)) - m = Suc 0"
      by simp_all
    from a have ne: "drop (length ys - m) ys \<noteq> []" by simp
    have "drop (Suc 0) (drop (length ys - m) ys @ [x]) = drop (Suc 0) (drop (length ys - m) ys) @ [x]"
      using ne by (cases "drop (length ys - m) ys") simp_all
    then show ?thesis using a by (simp add: b c)
  qed
qed

lemma deque_append_items:
  "items (deque_append x d) =
     (if maxlen d < Suc (length (items d)) then tl (items d @ [x]) else items d @ [x])"
  by (simp add: deque_append_def Let_def)

lemma deque_append_full:
  "length (items d) \<le> maxlen d \<Longrightarrow>
   items (deque_append x d) = drop (length (items d @ [x]) - maxlen d) (items d @ [x])"
proof -
  assume le: "length (items d) \<le> maxlen d"
  show ?thesis
  proof (cases "maxlen d < Suc (length (items d))")
    case True
    with le have "Suc (length (items d)) - maxlen d = Suc 0" by simp
    moreover have "drop (Suc 0) (items d @ [x]) = tl (items d @ [x])"
      by (simp only: drop_Suc drop_0)
    ultimately show ?thesis using True by (simp only: deque_append_items length_append_singleton if_True)
  next
    case False
    then show ?thesis by (simp add: deque_append_items)
  qed
qed

lemma fold_deque_append_new:
  "items (fold deque_append xs (deque_new n)) = drop (length xs - n) xs"
proof (induction xs rule: rev_induct)
  case Nil
  show ?case by (simp add: deque_new_def)
next
  case (snoc x xs)
  let ?d = "fold deque_append xs (deque_new n)"
  have m: "maxlen ?d = n" by (simp add: deque_new_def)
  have le: "length (items ?d) \<le> maxlen ?d" unfolding m by (simp add: snoc)
  have "items (fold deque_append (xs @ [x]) (deque_new n)) = items (deque_append x ?d)"
    by simp
  also have "\<dots> = drop (length (items ?d @ [x]) - n) (items ?d @ [x])"
    using deque_append_full [OF le] by (simp only: m)
  also have "\<dots> = drop (length (xs @ [x]) - n) (xs @ [x])"
    unfolding snoc by (rule drop_last_step)
  finally show ?case .
qed

lemma update_stats_history:
  assumes "history d = [''cpu'' \<mapsto> q1, ''memory'' \<mapsto> q2, ''cpu_temp'' \<mapsto> q3,
                        ''gpu_temp'' \<mapsto> q4, ''disk'' \<mapsto> q5]"
  shows "history (update_stats srcs d) =
           [''cpu'' \<mapsto> deque_append (sample ''cpu'' srcs) q1,
            ''memory'' \<mapsto> deque_append (sample ''memory'' srcs) q2,
            ''cpu_temp'' \<mapsto> deque_append (sample ''cpu_temp'' srcs) q3,
            ''gpu_temp'' \<mapsto> deque_append (sample ''gpu_temp'' srcs) q4,
            ''disk'' \<mapsto> deque_append (sample ''disk'' srcs) q5]"
  by (rule ext) (simp add: update_stats_def history_append_def dict_get_def Let_def sample_def assms)

lemma fold_update_stats_history:
  "history d = [''cpu'' \<mapsto> q1, ''memory'' \<mapsto> q2, ''cpu_temp'' \<mapsto> q3,
                ''gpu_temp'' \<mapsto> q4, ''disk'' \<mapsto> q5] \<Longrightarrow>
   history (fold update_stats snaps d) =
           [''cpu'' \<mapsto> fold deque_append (map (sample ''cpu'') snaps) q1,
            ''memory'' \<mapsto> fold deque_append (map (sample ''memory'') snaps) q2,
            ''cpu_temp'' \<mapsto> fold deque_append (map (sample ''cpu_temp'') snaps) q3,
            ''gpu_temp'' \<mapsto> fold deque_append (map (sample ''gpu_temp'') snaps) q4,
            ''disk'' \<mapsto> fold deque_append (map (sample ''disk'') snaps) q5]"
proof (induction snaps arbitrary: d q1 q2 q3 q4 q5)
  case Nil
  then show ?case by simp
next
  case (Cons s snaps)
  show ?case
    using Cons.IH [OF update_stats_history [OF Cons.prems, of s]] by simp
qed

lemma read_history_run:
  "list_all (\<lambda>key. read_history key (fold update_stats snaps (carousel_init u p now)) =
                     Inr (drop (length snaps - 20) (map (sample key) snaps))) history_keys"
proof -
  have h: "history (carousel_init u p now) =
             [''cpu'' \<mapsto> deque_new 20, ''memory'' \<mapsto> deque_new 20, ''cpu_temp'' \<mapsto> deque_new 20,
              ''gpu_temp'' \<mapsto> deque_new 20, ''disk'' \<mapsto> deque_new 20]"
    by (simp add: carousel_init_def)
  show ?thesis
    by (simp add: history_keys_def read_history_def dict_get_def
        fold_update_stats_history [OF h] fold_deque_append_new)
qed

text \<open>
  Claim C3. For every sequence of pushes to a history ring of capacity 20: the stored
  sequence never holds more than 20 samples; a push to a full ring evicts exactly the
  oldest sample; after exactly 20 pushes the ring reads back the samples in the order
  they were pushed. The same holds through \<open>update_stats\<close>: after any sequence of
  updates every ring of the dashboard holds the last 20 samples of its key, oldest first.
\<close>

theorem history_ring_fifo:
  "list_all (\<lambda>key. read_history key (fold update_stats snaps (carousel_init u p now)) =
                     Inr (drop (length snaps - 20) (map (sample key) snaps))) history_keys
   \<and> length (items (fold deque_append xs (deque_new 20))) \<le> 20
   \<and> (maxlen d = 20 \<and> length (items d) = 20 \<longrightarrow>
        items (deque_append x d) = tl (items d) @ [x])
   \<and> (length xs = 20 \<longrightarrow> items (fold deque_append xs (deque_new 20)) = xs)
   \<and> (length snaps = 20 \<longrightarrow>
        list_all (\<lambda>key. read_history key (fold update_stats snaps (carousel_init u p now)) =
                          Inr (map (sample key) snaps)) history_keys)"
proof (intro conjI impI)
  show "list_all (\<lambda>key. read_history key (fold update_stats snaps (carousel_init u p now)) =
                     Inr (drop (length snaps - 20) (map (sample key) snaps))) history_keys"
    by (rule read_history_run)
  show "length (items (fold deque_append xs (deque_new 20))) \<le> 20"
    by (simp add: fold_deque_append_new)
  show "items (deque_append x d) = tl (items d) @ [x]"
    if "maxlen d = 20 \<and> length (items d) = 20"
  proof -
    from that have "items d \<noteq> []" by auto
    with that show ?thesis by (simp add: deque_append_items)
  qed
  show "items (fold deque_append xs (deque_new 20)) = xs" if "length xs = 20"
    using that by (simp add: fold_deque_append_new)
  show "list_all (\<lambda>key. read_history key (fold update_stats snaps (carousel_init u p now)) =
                          Inr (map (sample key) snaps)) history_keys" if "length snaps = 20"
    using read_history_run [of snaps u p now] that by simp
qed

theorem history_ring_fifo_witness:
  "length (items (fold deque_append [1 ..< 21] (deque_new 20))) \<le> 20
   \<and> items (deque_append 21 \<lparr>maxlen = 20, items = [1 ..< 21]\<rparr>) = tl [1 ..< 21] @ [21]
   \<and> items (fold deque_append [1 ..< 21] (deque_new 20)) = [1 ..< 21]
   \<and> list_all (\<lambda>key. read_history key (fold update_stats (replicate 20 src0) (carousel_init 1 5 0)) =
                          Inr (map (sample key) (replicate 20 src0))) history_keys"
  using history_ring_fifo [of "replicate 20 src0" 1 5 0 "[1 ..< 21]"
      "\<lparr>maxlen = 20, items = [1 ..< 21]\<rparr>" 21]
  by simp

section \<open>Page sequencing: proofs\<close>



section \<open>Graphs: proofs\<close>

lemma then_draw_None [simp]: "then_draw (cs, None) b = (cs @ fst b, snd b)"
  by (cases b) (simp add: then_draw_def)

lemma then_draw_Some [simp]: "then_draw (cs, Some e) b = (cs, Some e)"
  by (simp add: then_draw_def)

lemma snd_then_draw:
  "snd (then_draw a b) = (case snd a of Some e \<Rightarrow> Some e | None \<Rightarrow> snd b)"
  by (cases a; cases b) (simp add: then_draw_def split: option.splits)

lemma fst_then_draw:
  "snd a = None \<Longrightarrow> fst (then_draw a b) = fst a @ fst b"
  by (cases a; cases b) (simp add: then_draw_def)

lemma for_each_no_error:
  "(\<And>i. i \<in> set xs \<Longrightarrow> snd (body i) = None) \<Longrightarrow>
   snd (for_each body xs) = None \<and> fst (for_each body xs) = concat (map (\<lambda>i. fst (body i)) xs)"
proof (induction xs)
  case Nil
  show ?case by simp
next
  case (Cons i xs)
  then have b: "snd (body i) = None" and r: "snd (for_each body xs) = None"
    and f: "fst (for_each body xs) = concat (map (\<lambda>i. fst (body i)) xs)"
    by simp_all
  show ?case
    using b r f by (simp add: snd_then_draw fst_then_draw)
qed

lemma for_each_first_error:
  "body i = ([], Some e) \<Longrightarrow> for_each body (i # xs) = ([], Some e)"
  by simp

lemma scaled_height_zero: "scaled_height height 0 v = Inl ZeroDivisionError"
  by (simp add: scaled_height_def py_div_def)

lemma scaled_height_ok:
  "max_val \<noteq> 0 \<Longrightarrow>
   scaled_height height max_val v =
     Inr (py_int (py_mul (fl (v / float_of_int max_val)) (float_of_int height)))"
  by (simp add: scaled_height_def py_div_def)

text \<open>
  Claim C4 says that a history of 0 or 1 samples gives no draw call for the line, area
  and bar styles. The bar chart returns early only for an empty history: with one sample
  it draws the background, the grid, the axes and one bar.
\<close>

theorem bar_chart_one_sample_counterexample:
  "fst (draw_bar_chart 10 148 220 122 [5] 10 WHITE) \<noteq> []"
  by (simp add: draw_bar_chart_def Let_def fst_then_draw)

lemma then_draw_calls_nonempty: "fst (then_draw (c # cs, None) b) \<noteq> []"
  by simp

text \<open>
  Claim C4, amended. For every history of 0 or 1 samples the line graphs and the area
  graph make no draw call and return normally, whatever the region and the ceiling; the
  bar chart makes no draw call for the empty history. These guards are exact: with 2 or
  more samples (1 or more for the bar chart) the routine draws.
\<close>

theorem graph_noop_short_history:
  "(length data < 2 \<longrightarrow> draw_graph x y width height data max_val color animation_frame = ([], None))
   \<and> (length data < 2 \<longrightarrow> pro_draw_graph x y width height data max_val color counter = ([], None))
   \<and> (length data < 2 \<longrightarrow>
         draw_smooth_area_graph x y width height data max_val color counter = ([], None))
   \<and> (length data < 1 \<longrightarrow> draw_bar_chart x y width height data max_val color = ([], None))
   \<and> (fst (draw_graph x y width height data max_val color animation_frame) = []) = (length data < 2)
   \<and> (fst (pro_draw_graph x y width height data max_val color counter) = []) = (length data < 2)
   \<and> (fst (draw_smooth_area_graph x y width height data max_val color counter) = [])
        = (length data < 2)
   \<and> (fst (draw_bar_chart x y width height data max_val color) = []) = (length data < 1)"
proof -
  have a: "draw_graph x y width height data max_val color animation_frame = ([], None)"
    if "length data < 2"
    using that by (simp add: draw_graph_def)
  have b: "pro_draw_graph x y width height data max_val color counter = ([], None)"
    if "length data < 2"
    using that by (simp add: pro_draw_graph_def)
  have c: "draw_smooth_area_graph x y width height data max_val color counter = ([], None)"
    if "length data < 2"
    using that by (simp add: draw_smooth_area_graph_def)
  have d: "draw_bar_chart x y width height data max_val color = ([], None)"
    if "length data < 1"
    using that by (simp add: draw_bar_chart_def)
  have a': "fst (draw_graph x y width height data max_val color animation_frame) \<noteq> []"
    if "\<not> length data < 2"
    unfolding draw_graph_def Let_def if_not_P [OF that] append_Cons
    by (rule then_draw_calls_nonempty)
  have b': "fst (pro_draw_graph x y width height data max_val color counter) \<noteq> []"
    if "\<not> length data < 2"
    unfolding pro_draw_graph_def Let_def if_not_P [OF that] append_Cons
    by (rule then_draw_calls_nonempty)
  have c': "fst (draw_smooth_area_graph x y width height data max_val color counter) \<noteq> []"
    if "\<not> length data < 2"
    unfolding draw_smooth_area_graph_def Let_def if_not_P [OF that] append_Cons
    by (rule then_draw_calls_nonempty)
  have d': "fst (draw_bar_chart x y width height data max_val color) \<noteq> []"
    if "\<not> length data < 1"
    unfolding draw_bar_chart_def Let_def if_not_P [OF that] append_Cons
    by (rule then_draw_calls_nonempty)
  show ?thesis
    using a b c d a' b' c' d' by (metis fst_conv)
qed

theorem graph_noop_short_history_witness:
  "draw_graph 15 160 210 110 [42] 100 RED 0 = ([], None)
   \<and> pro_draw_graph 15 160 210 110 [42] 100 RED 0 = ([], None)
   \<and> draw_smooth_area_graph 15 160 210 110 [42] 100 RED 0 = ([], None)
   \<and> draw_graph 10 148 220 122 [] 10 WHITE 0 = ([], None)
   \<and> draw_bar_chart 10 148 220 122 [] 10 WHITE = ([], None)"
  using graph_noop_short_history [of "[42]" 15 160 210 110 100 RED 0 0]
    graph_noop_short_history [of "[]" 10 148 220 122 10 WHITE 0 0]
  by simp

lemma draw_graph_segment_zero:
  "draw_graph_segment x y width height values 0 color shift pw i = ([], Some ZeroDivisionError)"
  by (simp add: draw_graph_segment_def scaled_height_zero Let_def)

lemma draw_graph_segment_ok:
  "max_val \<noteq> 0 \<Longrightarrow> snd (draw_graph_segment x y width height values max_val color shift pw i) = None"
  by (simp add: draw_graph_segment_def scaled_height_ok Let_def)

lemma draw_bar_zero:
  "draw_bar x y width height values 0 color bw i = ([], Some ZeroDivisionError)"
  by (simp add: draw_bar_def scaled_height_zero Let_def)

lemma draw_bar_ok:
  "max_val \<noteq> 0 \<Longrightarrow> snd (draw_bar x y width height values max_val color bw i) = None"
  by (simp add: draw_bar_def scaled_height_ok Let_def)

lemma upt_first: "0 < n \<Longrightarrow> [0 ..< n] = 0 # [1 ..< n]"
  by (simp add: upt_conv_Cons)

text \<open>
  Claim C5 says that a graph routine called with the ceiling 0 raises no division by zero
  and draws nothing. No routine tests \<open>max_val\<close>: with two samples the line graph draws
  its background, grid and axes and then divides the first sample by the ceiling; so does
  the bar chart with one sample.
\<close>

theorem draw_graph_zero_ceiling_counterexample:
  "snd (draw_graph 15 160 210 110 [10, 50] 0 RED 0) = Some ZeroDivisionError
   \<and> snd (draw_bar_chart 10 148 220 122 [5] 0 WHITE) = Some ZeroDivisionError"
  by (simp add: draw_graph_def draw_bar_chart_def Let_def draw_graph_segment_zero draw_bar_zero)

text \<open>
  Claim C5, amended. For every sample sequence and region: with a ceiling other than 0 the
  line graph and the bar chart raise no division by zero; with the ceiling 0 they are a
  no-op that renders nothing only when the history is too short to draw (fewer than 2
  samples for the line graph, no sample for the bar chart), and otherwise they raise
  ZeroDivisionError after drawing the background, grid and axes: for the line graph the
  background rectangle, one grid line every 20 pixels and the two axes; for the bar chart
  the background rectangle, the gradient lines of the top quarter, one grid line every 10
  pixels, the two axes and their two glow lines; and nothing else.
\<close>

theorem graph_ceiling_division:
  "(2 \<le> length data \<longrightarrow>
      draw_graph x y width height data 0 color animation_frame =
        (Rectangle (of_int x) (of_int y) (of_int (x + width)) (of_int (y + height))
           (Some WHITE) (Some BLACK)
         # map (\<lambda>i. Line (of_int x) (of_int (y + i)) (of_int (x + width)) (of_int (y + i))
                        (30, 30, 30) 1) (py_range 0 height 20)
         @ [Line (of_int x) (of_int (y + height)) (of_int (x + width)) (of_int (y + height))
              color 2,
            Line (of_int x) (of_int y) (of_int x) (of_int (y + height)) color 2],
         Some ZeroDivisionError))
   \<and> (length data < 2 \<longrightarrow>
      draw_graph x y width height data 0 color animation_frame = ([], None))
   \<and> (max_val \<noteq> 0 \<longrightarrow>
      snd (draw_graph x y width height data max_val color animation_frame) = None)
   \<and> (1 \<le> length data \<longrightarrow>
      draw_bar_chart x y width height data 0 color =
        (Rectangle (of_int x) (of_int y) (of_int (x + width)) (of_int (y + height))
           (Some WHITE) (Some BLACK)
         # map (\<lambda>i. Line (of_int x) (of_int (y + i)) (of_int (x + width)) (of_int (y + i))
                        (15 - (i * 10) div (max 1 (height div 4)),
                         15 - (i * 10) div (max 1 (height div 4)),
                         15 - (i * 10) div (max 1 (height div 4))) 1)
             (py_range 0 (min (height div 4) height) 1)
         @ map (\<lambda>i. Line (of_int x) (of_int (y + i)) (of_int (x + width)) (of_int (y + i))
                        (if i mod 20 = 0 then (25, 25, 25) else (12, 12, 12)) 1)
             (py_range 0 height 10)
         @ [Line (of_int x) (of_int (y + height)) (of_int (x + width)) (of_int (y + height))
              color 3,
            Line (of_int x) (of_int y) (of_int x) (of_int (y + height)) color 3,
            Line (of_int (x + 1)) (of_int (y + height + 1)) (of_int (x + width))
              (of_int (y + height + 1)) (30, 30, 30) 1,
            Line (of_int (x + 1)) (of_int (y + 1)) (of_int (x + 1)) (of_int (y + height))
              (30, 30, 30) 1],
         Some ZeroDivisionError))
   \<and> (length data < 1 \<longrightarrow> draw_bar_chart x y width height data 0 color = ([], None))
   \<and> (max_val \<noteq> 0 \<longrightarrow> snd (draw_bar_chart x y width height data max_val color) = None)"
proof (intro conjI impI)
  assume n: "2 \<le> length data"
  then have ne: "data \<noteq> []" by (cases data) simp_all
  from n have "0 < length data - 1" by simp
  then have u: "[0 ..< length data - 1] = 0 # [1 ..< length data - 1]"
    by (rule upt_first)
  have fe: "for_each (draw_graph_segment x y width height data 0 color animation_frame pw)
              [0 ..< length data - 1] = ([], Some ZeroDivisionError)" for pw
    unfolding u by (simp add: draw_graph_segment_zero)
  have g: "\<not> length data < 2" using n by simp
  show "draw_graph x y width height data 0 color animation_frame =
        (Rectangle (of_int x) (of_int y) (of_int (x + width)) (of_int (y + height))
           (Some WHITE) (Some BLACK)
         # map (\<lambda>i. Line (of_int x) (of_int (y + i)) (of_int (x + width)) (of_int (y + i))
                        (30, 30, 30) 1) (py_range 0 height 20)
         @ [Line (of_int x) (of_int (y + height)) (of_int (x + width)) (of_int (y + height))
              color 2,
            Line (of_int x) (of_int y) (of_int x) (of_int (y + height)) color 2],
         Some ZeroDivisionError)"
    unfolding draw_graph_def Let_def if_not_P [OF g] fe
    by (simp add: draw_rectangle_def draw_line_def)
next
  assume "length data < 2"
  then show "draw_graph x y width height data 0 color animation_frame = ([], None)"
    by (simp add: draw_graph_def)
next
  assume m: "max_val \<noteq> 0"
  show "snd (draw_graph x y width height data max_val color animation_frame) = None"
    using m for_each_no_error [of "[0 ..< length data - 1]"
        "draw_graph_segment x y width height data max_val color animation_frame
           (int_truediv width (int (length data)))"]
    by (simp add: draw_graph_def Let_def draw_graph_segment_ok scaled_height_ok snd_then_draw)
next
  assume n: "1 \<le> length data"
  then have ne: "data \<noteq> []" by (cases data) simp_all
  then have "0 < length data" by simp
  then have u: "[0 ..< length data] = 0 # [1 ..< length data]"
    by (rule upt_first)
  have fe: "for_each (draw_bar x y width height data 0 color bw) [0 ..< length data] =
              ([], Some ZeroDivisionError)" for bw
    unfolding u by (simp add: draw_bar_zero)
  have g: "\<not> length data < 1" using ne by simp
  show "draw_bar_chart x y width height data 0 color =
        (Rectangle (of_int x) (of_int y) (of_int (x + width)) (of_int (y + height))
           (Some WHITE) (Some BLACK)
         # map (\<lambda>i. Line (of_int x) (of_int (y + i)) (of_int (x + width)) (of_int (y + i))
                        (15 - (i * 10) div (max 1 (height div 4)),
                         15 - (i * 10) div (max 1 (height div 4)),
                         15 - (i * 10) div (max 1 (height div 4))) 1)
             (py_range 0 (min (height div 4) height) 1)
         @ map (\<lambda>i. Line (of_int x) (of_int (y + i)) (of_int (x + width)) (of_int (y + i))
                        (if i mod 20 = 0 then (25, 25, 25) else (12, 12, 12)) 1)
             (py_range 0 height 10)
         @ [Line (of_int x) (of_int (y + height)) (of_int (x + width)) (of_int (y + height))
              color 3,
            Line (of_int x) (of_int y) (of_int x) (of_int (y + height)) color 3,
            Line (of_int (x + 1)) (of_int (y + height + 1)) (of_int (x + width))
              (of_int (y + height + 1)) (30, 30, 30) 1,
            Line (of_int (x + 1)) (of_int (y + 1)) (of_int (x + 1)) (of_int (y + height))
              (30, 30, 30) 1],
         Some ZeroDivisionError)"
    unfolding draw_bar_chart_def Let_def if_not_P [OF g] fe
    by (simp add: draw_rectangle_def draw_line_def if_distrib cong: if_cong)
next
  assume "length data < 1"
  then show "draw_bar_chart x y width height data 0 color = ([], None)"
    by (simp add: draw_bar_chart_def)
next
  assume m: "max_val \<noteq> 0"
  show "snd (draw_bar_chart x y width height data max_val color) = None"
    using m for_each_no_error [of "[0 ..< length data]"
        "draw_bar x y width height data max_val color (int_truediv width (int (length data)))"]
    by (simp add: draw_bar_chart_def Let_def draw_bar_ok snd_then_draw)
qed


lemma py_range_grid: "py_range 0 110 20 = [0, 20, 40, 60, 80, 100]"
  by code_simp

lemma py_range_small: "py_range 0 (min (20 div 4) 20) 1 = [0, 1, 2, 3, 4] \<and> py_range 0 20 10 = [0, 10]"
  by code_simp

theorem graph_ceiling_division_witness:
  "draw_graph 15 160 210 110 [10, 50] 0 RED 0 =
     ([Rectangle 15 160 225 270 (Some WHITE) (Some BLACK),
       Line 15 160 225 160 (30, 30, 30) 1, Line 15 180 225 180 (30, 30, 30) 1,
       Line 15 200 225 200 (30, 30, 30) 1, Line 15 220 225 220 (30, 30, 30) 1,
       Line 15 240 225 240 (30, 30, 30) 1, Line 15 260 225 260 (30, 30, 30) 1,
       Line 15 270 225 270 RED 2, Line 15 160 15 270 RED 2],
      Some ZeroDivisionError)
   \<and> snd (draw_graph 15 160 210 110 [10, 50] 100 RED 0) = None
   \<and> draw_bar_chart 10 148 220 20 [5] 0 WHITE =
     ([Rectangle 10 148 230 168 (Some WHITE) (Some BLACK),
       Line 10 148 230 148 (15, 15, 15) 1, Line 10 149 230 149 (13, 13, 13) 1,
       Line 10 150 230 150 (11, 11, 11) 1, Line 10 151 230 151 (9, 9, 9) 1,
       Line 10 152 230 152 (7, 7, 7) 1, Line 10 148 230 148 (25, 25, 25) 1,
       Line 10 158 230 158 (12, 12, 12) 1, Line 10 168 230 168 WHITE 3,
       Line 10 148 10 168 WHITE 3, Line 11 169 230 169 (30, 30, 30) 1,
       Line 11 149 11 168 (30, 30, 30) 1],
      Some ZeroDivisionError)
   \<and> snd (draw_bar_chart 10 148 220 20 [5] 100 WHITE) = None
   \<and> draw_graph 15 160 210 110 [] 0 RED 0 = ([], None)
   \<and> draw_bar_chart 15 160 210 110 [] 0 RED = ([], None)"
  using graph_ceiling_division [of "[10, 50]" 15 160 210 110 RED 0 100]
    graph_ceiling_division [of "[5]" 10 148 220 20 WHITE 0 100]
    graph_ceiling_division [of "[]" 15 160 210 110 RED 0 100]
    py_range_grid py_range_small
  by simp

section \<open>Scaling of the line graph: proofs\<close>

lemma py_int_nonneg: "0 \<le> r \<Longrightarrow> py_int r = \<lfloor>r\<rfloor>"
  by (simp add: py_int_def)

lemma py_int_of_int [simp]: "py_int (of_int k) = k"
  by (simp add: py_int_def)

lemma py_int_close:
  assumes "\<bar>p - t\<bar> < 1"
  shows "\<bar>py_int p - py_int t\<bar> \<le> 1"
proof -
  have fp: "of_int \<lfloor>p\<rfloor> \<le> p" "p < of_int \<lfloor>p\<rfloor> + 1" by linarith+
  have ft: "of_int \<lfloor>t\<rfloor> \<le> t" "t < of_int \<lfloor>t\<rfloor> + 1" by linarith+
  have cp: "p \<le> of_int \<lceil>p\<rceil>" "of_int \<lceil>p\<rceil> < p + 1" by linarith+
  have ct: "t \<le> of_int \<lceil>t\<rceil>" "of_int \<lceil>t\<rceil> < t + 1" by linarith+
  from assms have d: "p < t + 1" "t < p + 1" by (simp_all add: abs_less_iff)
  have "(of_int (py_int p) :: rat) - of_int (py_int t) < 2
      \<and> (of_int (py_int t) :: rat) - of_int (py_int p) < 2"
  proof (cases "0 \<le> p")
    case p: True
    show ?thesis
    proof (cases "0 \<le> t")
      case True
      show ?thesis
        unfolding py_int_def if_P [OF p] if_P [OF True]
        using fp ft d by linarith
    next
      case False
      show ?thesis
        unfolding py_int_def if_P [OF p] if_not_P [OF False]
        using fp ct d p False by linarith
    qed
  next
    case p: False
    show ?thesis
    proof (cases "0 \<le> t")
      case True
      show ?thesis
        unfolding py_int_def if_not_P [OF p] if_P [OF True]
        using cp ft d p True by linarith
    next
      case False
      show ?thesis
        unfolding py_int_def if_not_P [OF p] if_not_P [OF False]
        using cp ct d by linarith
    qed
  qed
  then have "(of_int (py_int p - py_int t) :: rat) < of_int 2
      \<and> (of_int (py_int t - py_int p) :: rat) < of_int 2"
    by simp
  then have "py_int p - py_int t < 2 \<and> py_int t - py_int p < 2"
    by (simp only: of_int_less_iff)
  then show ?thesis by linarith
qed

lemma fl_product_error:
  "\<bar>fl (c * fl a) - c * a\<bar> * 2 ^ 51 \<le> \<bar>c * a\<bar>"
proof -
  define E where "E = \<bar>c * a\<bar>"
  have e1: "\<bar>fl a - a\<bar> * 2 ^ 53 \<le> \<bar>a\<bar>" by (rule fl_error)
  have "\<bar>c * fl a - c * a\<bar> = \<bar>c\<bar> * \<bar>fl a - a\<bar>"
    by (simp add: abs_mult flip: right_diff_distrib)
  then have "\<bar>c * fl a - c * a\<bar> * 2 ^ 53 = \<bar>c\<bar> * (\<bar>fl a - a\<bar> * 2 ^ 53)" by simp
  also have "\<dots> \<le> \<bar>c\<bar> * \<bar>a\<bar>" using e1 by (intro mult_left_mono) simp_all
  finally have s1: "\<bar>c * fl a - c * a\<bar> * 2 ^ 53 \<le> E" by (simp add: E_def abs_mult)
  have e2: "\<bar>fl (c * fl a) - c * fl a\<bar> * 2 ^ 53 \<le> \<bar>c * fl a\<bar>" by (rule fl_error)
  have "\<bar>c * fl a\<bar> \<le> \<bar>c * fl a - c * a\<bar> + E" unfolding E_def by linarith
  with s1 have s2: "\<bar>c * fl a\<bar> * 2 ^ 53 \<le> E + E * 2 ^ 53" by simp
  have Epos: "0 \<le> E" by (simp add: E_def)
  have "\<bar>fl (c * fl a) - c * a\<bar> \<le> \<bar>fl (c * fl a) - c * fl a\<bar> + \<bar>c * fl a - c * a\<bar>"
    by linarith
  then have "\<bar>fl (c * fl a) - c * a\<bar> * 2 ^ 53
      \<le> \<bar>fl (c * fl a) - c * fl a\<bar> * 2 ^ 53 + \<bar>c * fl a - c * a\<bar> * 2 ^ 53"
    by (simp add: algebra_simps)
  also have "\<dots> \<le> \<bar>c * fl a\<bar> + E" using e2 s1 by linarith
  finally have "\<bar>fl (c * fl a) - c * a\<bar> * 2 ^ 53 * 2 ^ 53 \<le> (\<bar>c * fl a\<bar> + E) * 2 ^ 53"
    by simp
  also have "\<dots> \<le> E + E * 2 ^ 53 + E * 2 ^ 53" using s2 by (simp add: algebra_simps)
  also have "\<dots> \<le> E * 2 ^ 55" using Epos by simp
  finally have "\<bar>fl (c * fl a) - c * a\<bar> * 2 ^ 51 * 2 ^ 55 \<le> E * 2 ^ 55" by simp
  then show ?thesis unfolding E_def by simp
qed

lemma fl_product_close:
  assumes "\<bar>c * a\<bar> < 2 ^ 51"
  shows "\<bar>fl (c * fl a) - c * a\<bar> < 1"
proof -
  have "\<bar>fl (c * fl a) - c * a\<bar> * 2 ^ 51 \<le> \<bar>c * a\<bar>" by (rule fl_product_error)
  also have "\<dots> < 1 * 2 ^ 51" using assms by simp
  finally show ?thesis by (simp only: mult_less_cancel_right_pos zero_less_power zero_less_numeral)
qed


lemma point_x_props:
  assumes "0 \<le> width" "width < 2 ^ 32" "0 < n" "i \<le> n" "n < 2 ^ 32"
  shows "\<bar>point_x x (int_truediv width (int n)) i - graph_x x width n i\<bar> \<le> 1
     \<and> x \<le> point_x x (int_truediv width (int n)) i
     \<and> point_x x (int_truediv width (int n)) i \<le> x + width"
proof -
  define a :: rat where "a = of_int width / of_int (int n)"
  define c :: rat where "c = of_int (int i)"
  define p where "p = fl (c * fl a)"
  have i53: "\<bar>int i\<bar> < 2 ^ 53"
  proof -
    have "int i \<le> int n" using assms(4) by simp
    also have "\<dots> < 2 ^ 32"
    proof -
      have "int n < int (2 ^ 32)" using assms(5) by (simp only: of_nat_less_iff)
      then show ?thesis by simp
    qed
    also have "\<dots> < (2 ^ 53 :: int)" by simp
    finally show ?thesis by simp
  qed
  have px: "point_x x (int_truediv width (int n)) i = x + py_int p"
    by (simp add: point_x_def py_mul_def int_truediv_def float_of_int_exact [OF i53]
        p_def c_def a_def)
  have a0: "0 \<le> a" using assms by (simp add: a_def)
  have c0: "0 \<le> c" by (simp add: c_def)
  have t0: "0 \<le> c * a" using a0 c0 by simp
  have tw: "c * a \<le> of_int width"
  proof -
    have np: "(0::rat) < of_int (int n)" using assms(3) by simp
    have "c \<le> of_int (int n)" using assms(4) by (simp add: c_def)
    then have "c * of_int width \<le> of_int (int n) * of_int width"
      using assms(1) by (intro mult_right_mono) simp_all
    then show ?thesis
      using np by (simp add: a_def field_simps)
  qed
  have w51: "(of_int width :: rat) < 2 ^ 51"
  proof -
    have "width < 2 ^ 51" using assms(2) by simp
    then have "(of_int width :: rat) < of_int (2 ^ 51)" by (simp only: of_int_less_iff)
    then show ?thesis by simp
  qed
  have "\<bar>c * a\<bar> < 2 ^ 51" using t0 tw w51 by simp
  then have close: "\<bar>p - c * a\<bar> < 1" unfolding p_def by (rule fl_product_close)
  have p0: "0 \<le> p"
    unfolding p_def using c0 a0 by (intro fl_nonneg mult_nonneg_nonneg) simp_all
  have ft: "py_int (c * a) = (int i * width) div int n"
  proof -
    have "c * a = of_int (int i * width) / of_int (int n)" by (simp add: c_def a_def)
    then have "\<lfloor>c * a\<rfloor> = (int i * width) div int n"
      by (simp only: floor_divide_of_int_eq)
    then show ?thesis using t0 by (simp add: py_int_nonneg)
  qed
  have one: "\<bar>py_int p - (int i * width) div int n\<bar> \<le> 1"
    using py_int_close [OF close] by (simp only: ft)
  have lo: "0 \<le> py_int p" using p0 by (simp add: py_int_nonneg)
  have "p < of_int (width + 1)"
    using close tw by (simp add: abs_less_iff)
  then have "\<lfloor>p\<rfloor> < width + 1" by (simp only: floor_less_iff)
  then have hi: "py_int p \<le> width" using p0 by (simp add: py_int_nonneg)
  show ?thesis
    using one lo hi by (simp add: px graph_x_def)
qed

lemma point_x_first: "point_x x pw 0 = x"
  by (simp add: point_x_def py_mul_def float_of_int_def py_int_def)

lemma scaled_height_zero_sample:
  "max_val \<noteq> 0 \<Longrightarrow> scaled_height height max_val 0 = Inr 0"
  by (simp add: scaled_height_ok py_mul_def py_int_def)

lemma fl_one: "fl 1 = 1"
  using fl_of_int [of 1] by simp

lemma scaled_height_ceiling:
  assumes "max_val \<noteq> 0" "\<bar>max_val\<bar> < 2 ^ 53" "\<bar>height\<bar> < 2 ^ 53"
  shows "scaled_height height max_val (of_int max_val) = Inr height"
proof -
  have m: "float_of_int max_val = of_int max_val" using assms(2) by (rule float_of_int_exact)
  have h: "float_of_int height = of_int height" using assms(3) by (rule float_of_int_exact)
  have q: "fl (of_int max_val / float_of_int max_val) = 1"
    using assms(1) by (simp add: m fl_one)
  have "py_mul 1 (float_of_int height) = of_int height"
    using assms(3) by (simp add: py_mul_def h fl_of_int)
  then show ?thesis
    by (simp add: scaled_height_ok [OF assms(1)] q)
qed

lemma scaled_height_close:
  assumes "max_val \<noteq> 0" "\<bar>max_val\<bar> < 2 ^ 53" "\<bar>height\<bar> < 2 ^ 53"
    and "\<bar>v * of_int height\<bar> < 2 ^ 50 * \<bar>of_int max_val\<bar>"
  shows "\<exists>h. scaled_height height max_val v = Inr h
     \<and> \<bar>(y + height - h) - graph_y y height max_val v\<bar> \<le> 1"
proof -
  define a where "a = v / of_int max_val"
  define c :: rat where "c = of_int height"
  have m: "float_of_int max_val = of_int max_val" using assms(2) by (rule float_of_int_exact)
  have h: "float_of_int height = of_int height" using assms(3) by (rule float_of_int_exact)
  have sh: "scaled_height height max_val v = Inr (py_int (fl (c * fl a)))"
    by (simp add: scaled_height_ok [OF assms(1)] py_mul_def m h a_def c_def mult.commute)
  have mp: "0 < \<bar>of_int max_val :: rat\<bar>" using assms(1) by simp
  have "\<bar>c * a\<bar> = \<bar>v * of_int height\<bar> / \<bar>of_int max_val\<bar>"
    by (simp add: a_def c_def abs_mult mult.commute)
  also have "\<dots> < 2 ^ 50"
    using assms(4) mp by (simp add: field_simps)
  also have "\<dots> < (2 ^ 51 :: rat)" by simp
  finally have "\<bar>c * a\<bar> < 2 ^ 51" .
  then have "\<bar>fl (c * fl a) - c * a\<bar> < 1" by (rule fl_product_close)
  then have "\<bar>py_int (fl (c * fl a)) - py_int (c * a)\<bar> \<le> 1" by (rule py_int_close)
  moreover have "c * a = v / of_int max_val * of_int height"
    by (simp add: a_def c_def)
  ultimately show ?thesis
    by (simp add: sh graph_y_def)
qed


lemma pro_segment_ok:
  "max_val \<noteq> 0 \<Longrightarrow>
   snd (pro_draw_graph_segment x y width height values max_val color pw i) = None"
  by (simp add: pro_draw_graph_segment_def scaled_height_ok Let_def)

lemma pro_segment_line:
  assumes "max_val \<noteq> 0" "0 \<le> width" "width < 2 ^ 32" "i + 1 < n" "n < 2 ^ 32"
    and "scaled_height height max_val (values ! i) = Inr h1"
    and "scaled_height height max_val (values ! (i + 1)) = Inr h2"
  shows "pro_draw_graph_segment x y width height values max_val color (int_truediv width (int n)) i =
     ([draw_line (of_int (point_x x (int_truediv width (int n)) i)) (of_int (y + height - h1))
         (of_int (point_x x (int_truediv width (int n)) (i + 1))) (of_int (y + height - h2))
         (Some color) 2]
      @ (if int i mod 4 = 0
         then [draw_rectangle (of_int (point_x x (int_truediv width (int n)) i - 2))
                 (of_int (y + height - h1 - 2))
                 (of_int (point_x x (int_truediv width (int n)) i + 2))
                 (of_int (y + height - h1 + 2)) None None (Some color)]
         else []), None)"
proof -
  have n: "0 < n" "i \<le> n" "i + 1 \<le> n" using assms(4) by simp_all
  have b1: "point_x x (int_truediv width (int n)) i \<le> x + width"
    using point_x_props [OF assms(2) assms(3) n(1) n(2) assms(5), of x] by simp
  have b2: "x \<le> point_x x (int_truediv width (int n)) (i + 1)"
    using point_x_props [OF assms(2) assms(3) n(1) n(3) assms(5), of x] by simp
  show ?thesis
    unfolding pro_draw_graph_segment_def Let_def assms(6) assms(7) sum.case
    using b1 b2 by simp
qed

lemma pro_draw_graph_calls:
  assumes "max_val \<noteq> 0" "2 \<le> length data"
  shows "\<exists>pre post. pro_draw_graph x y width height data max_val color counter =
     (pre @ concat (map (\<lambda>i. fst (pro_draw_graph_segment x y width height data max_val color
                                      (int_truediv width (int (length data))) i))
                      [0 ..< length data - 1]) @ post, None)"
proof -
  let ?seg = "pro_draw_graph_segment x y width height data max_val color
                (int_truediv width (int (length data)))"
  have fe: "snd (for_each ?seg [0 ..< length data - 1]) = None
      \<and> fst (for_each ?seg [0 ..< length data - 1]) =
          concat (map (\<lambda>i. fst (?seg i)) [0 ..< length data - 1])"
    by (rule for_each_no_error) (simp add: pro_segment_ok assms)
  then obtain cs where c: "for_each ?seg [0 ..< length data - 1] = (cs, None)"
    and cs: "cs = concat (map (\<lambda>i. fst (?seg i)) [0 ..< length data - 1])"
    by (cases "for_each ?seg [0 ..< length data - 1]") simp
  from assms(2) have "data \<noteq> []" by (cases data) simp_all
  then have g: "\<not> length data < 2" "0 < length data" using assms by simp_all
  show ?thesis
    unfolding pro_draw_graph_def Let_def if_not_P [OF g(1)] if_P [OF g(2)] c
      scaled_height_ok [OF assms(1)] sum.case then_draw_None fst_conv snd_conv cs
    by (intro exI) (rule refl)
qed

text \<open>
  Claim C6. For the line graph over a region with top \<open>y\<close> and height \<open>height\<close>, with
  a ceiling other than 0, computed in doubles as the interpreter does (ceiling and height
  below \<open>2^53\<close> in magnitude, width and number of samples below \<open>2^32\<close>): the routine
  returns normally and draws, for every pair of neighbouring samples, the segment between
  their computed points. A sample of value 0 is at the bottom \<open>y + height\<close> and a sample
  equal to the ceiling at the top \<open>y\<close>, exactly; every sample whose exact scaled height
  is below \<open>2^50\<close> is within one pixel of
  \<open>region_bottom - (value / ceiling) * region_height\<close>. Sample \<open>i\<close> of \<open>n\<close> is within
  one pixel of the linear position \<open>x + (i * width) div n\<close>, the first sample at \<open>x\<close>,
  none left of \<open>x\<close> or right of \<open>x + width\<close>.
\<close>

theorem pro_draw_graph_scaling:
  "max_val \<noteq> 0 \<and> \<bar>max_val\<bar> < 2 ^ 53 \<and> \<bar>height\<bar> < 2 ^ 53 \<and> 0 \<le> width \<and> width < 2 ^ 32
     \<and> i + 1 < length data \<and> length data < 2 ^ 32 \<longrightarrow>
     snd (pro_draw_graph x y width height data max_val color counter) = None
     \<and> (\<exists>h1 h2. scaled_height height max_val (data ! i) = Inr h1
           \<and> scaled_height height max_val (data ! (i + 1)) = Inr h2
           \<and> Line (of_int (point_x x (int_truediv width (int (length data))) i))
                   (of_int (y + height - h1))
                   (of_int (point_x x (int_truediv width (int (length data))) (i + 1)))
                   (of_int (y + height - h2)) color 2
               \<in> set (fst (pro_draw_graph x y width height data max_val color counter)))
     \<and> scaled_height height max_val 0 = Inr 0
     \<and> scaled_height height max_val (of_int max_val) = Inr height
     \<and> (\<bar>v * of_int height\<bar> < 2 ^ 50 * \<bar>of_int max_val\<bar> \<longrightarrow>
          (\<exists>h. scaled_height height max_val v = Inr h
             \<and> \<bar>(y + height - h) - graph_y y height max_val v\<bar> \<le> 1))
     \<and> point_x x (int_truediv width (int (length data))) 0 = x
     \<and> \<bar>point_x x (int_truediv width (int (length data))) i
          - graph_x x width (length data) i\<bar> \<le> 1
     \<and> \<bar>point_x x (int_truediv width (int (length data))) (i + 1)
          - graph_x x width (length data) (i + 1)\<bar> \<le> 1
     \<and> x \<le> point_x x (int_truediv width (int (length data))) i
     \<and> point_x x (int_truediv width (int (length data))) (i + 1) \<le> x + width"
proof (intro impI)
  assume h: "max_val \<noteq> 0 \<and> \<bar>max_val\<bar> < 2 ^ 53 \<and> \<bar>height\<bar> < 2 ^ 53 \<and> 0 \<le> width
     \<and> width < 2 ^ 32 \<and> i + 1 < length data \<and> length data < 2 ^ 32"
  then have m: "max_val \<noteq> 0" and m53: "\<bar>max_val\<bar> < 2 ^ 53" and h53: "\<bar>height\<bar> < 2 ^ 53"
    and w: "0 \<le> width" and w32: "width < 2 ^ 32" and i: "i + 1 < length data"
    and n32: "length data < 2 ^ 32"
    by simp_all
  let ?n = "length data"
  let ?pw = "int_truediv width (int ?n)"
  from i have "data \<noteq> []" by (cases data) simp_all
  with i have n: "2 \<le> ?n" "0 < ?n" "i \<le> ?n" "i + 1 \<le> ?n" by simp_all
  obtain pre post where p: "pro_draw_graph x y width height data max_val color counter =
     (pre @ concat (map (\<lambda>i. fst (pro_draw_graph_segment x y width height data max_val color
                                      ?pw i)) [0 ..< ?n - 1]) @ post, None)"
    using pro_draw_graph_calls [OF m n(1)] by blast
  have ok: "snd (pro_draw_graph x y width height data max_val color counter) = None"
    by (simp add: p)
  obtain h1 where h1: "scaled_height height max_val (data ! i) = Inr h1"
    by (simp add: scaled_height_ok [OF m])
  obtain h2 where h2: "scaled_height height max_val (data ! (i + 1)) = Inr h2"
    by (simp add: scaled_height_ok [OF m])
  have im: "i \<in> set [0 ..< ?n - 1]" using i by simp
  have "Line (of_int (point_x x ?pw i)) (of_int (y + height - h1))
             (of_int (point_x x ?pw (i + 1))) (of_int (y + height - h2)) color 2
        \<in> set (fst (pro_draw_graph_segment x y width height data max_val color ?pw i))"
    unfolding pro_segment_line [OF m w w32 i n32 h1 h2] by (simp add: draw_line_def)
  with im have line: "Line (of_int (point_x x ?pw i)) (of_int (y + height - h1))
             (of_int (point_x x ?pw (i + 1))) (of_int (y + height - h2)) color 2
        \<in> set (fst (pro_draw_graph x y width height data max_val color counter))"
    unfolding p by auto
  have seg: "\<exists>h1 h2. scaled_height height max_val (data ! i) = Inr h1
           \<and> scaled_height height max_val (data ! (i + 1)) = Inr h2
           \<and> Line (of_int (point_x x ?pw i)) (of_int (y + height - h1))
                   (of_int (point_x x ?pw (i + 1))) (of_int (y + height - h2)) color 2
               \<in> set (fst (pro_draw_graph x y width height data max_val color counter))"
    using h1 h2 line by blast
  have cl: "\<exists>h. scaled_height height max_val v = Inr h
             \<and> \<bar>(y + height - h) - graph_y y height max_val v\<bar> \<le> 1"
    if "\<bar>v * of_int height\<bar> < 2 ^ 50 * \<bar>of_int max_val\<bar>"
    using scaled_height_close [OF m m53 h53 that] .
  show "snd (pro_draw_graph x y width height data max_val color counter) = None
     \<and> (\<exists>h1 h2. scaled_height height max_val (data ! i) = Inr h1
           \<and> scaled_height height max_val (data ! (i + 1)) = Inr h2
           \<and> Line (of_int (point_x x ?pw i)) (of_int (y + height - h1))
                   (of_int (point_x x ?pw (i + 1))) (of_int (y + height - h2)) color 2
               \<in> set (fst (pro_draw_graph x y width height data max_val color counter)))
     \<and> scaled_height height max_val 0 = Inr 0
     \<and> scaled_height height max_val (of_int max_val) = Inr height
     \<and> (\<bar>v * of_int height\<bar> < 2 ^ 50 * \<bar>of_int max_val\<bar> \<longrightarrow>
          (\<exists>h. scaled_height height max_val v = Inr h
             \<and> \<bar>(y + height - h) - graph_y y height max_val v\<bar> \<le> 1))
     \<and> point_x x ?pw 0 = x
     \<and> \<bar>point_x x ?pw i - graph_x x width ?n i\<bar> \<le> 1
     \<and> \<bar>point_x x ?pw (i + 1) - graph_x x width ?n (i + 1)\<bar> \<le> 1
     \<and> x \<le> point_x x ?pw i
     \<and> point_x x ?pw (i + 1) \<le> x + width"
    using ok seg scaled_height_zero_sample [OF m, of height]
      scaled_height_ceiling [OF m m53 h53] cl point_x_first [of x ?pw]
      point_x_props [OF w w32 n(2) n(3) n32, of x]
      point_x_props [OF w w32 n(2) n(4) n32, of x]
    by blast
qed

lemma pro_points_eval:
  "scaled_height 110 10 23 = Inr 252 \<and> scaled_height 110 10 5 = Inr 55
   \<and> point_x 10 (int_truediv 220 (int (length [23, 5 :: rat]))) 0 = 10
   \<and> point_x 10 (int_truediv 220 (int (length [23, 5 :: rat]))) (0 + 1) = 120
   \<and> scaled_height 110 10 10 = Inr 110 \<and> scaled_height 110 10 0 = Inr 0
   \<and> graph_y 160 110 10 23 = 17 \<and> graph_x 10 220 2 1 = 120"
  by code_simp

theorem pro_draw_graph_scaling_witness:
  "snd (pro_draw_graph 10 160 220 110 [23, 5] 10 WHITE 0) = None
   \<and> Line 10 18 120 215 WHITE 2 \<in> set (fst (pro_draw_graph 10 160 220 110 [23, 5] 10 WHITE 0))
   \<and> scaled_height 110 10 0 = Inr 0
   \<and> scaled_height 110 10 10 = Inr 110
   \<and> scaled_height 110 10 23 = Inr 252"
  using pro_draw_graph_scaling [of 10 110 220 0 "[23, 5]" 10 160 WHITE 0 23] pro_points_eval
  by auto

section \<open>Progress bars: proofs\<close>

lemma fill_width_le:
  assumes "0 \<le> v" "2 \<le> bar_width"
  shows "0 \<le> fill_width bar_width v \<and> fill_width bar_width v \<le> bar_width - 2"
proof -
  let ?r = "of_int (bar_width - 2) * min v 100 / (100 :: rat)"
  have w: "(0::rat) \<le> of_int (bar_width - 2)" using assms by simp
  have m: "0 \<le> min v 100" "min v 100 \<le> 100" using assms by simp_all
  have nn: "0 \<le> ?r" using w m by simp
  have "of_int (bar_width - 2) * min v 100 \<le> of_int (bar_width - 2) * (100 :: rat)"
    using w m by (intro mult_left_mono) simp_all
  then have le: "?r \<le> of_int (bar_width - 2)" by simp
  have "\<lfloor>?r\<rfloor> \<le> bar_width - 2"
    using le by (simp add: floor_le_iff)
  moreover have "0 \<le> \<lfloor>?r\<rfloor>" using nn by simp
  ultimately show ?thesis
    using nn by (simp add: fill_width_def py_int_nonneg)
qed

lemma fill_width_narrow:
  assumes "0 \<le> v" "bar_width < 2"
  shows "fill_width bar_width v \<le> 0"
proof -
  let ?r = "of_int (bar_width - 2) * min v 100 / (100 :: rat)"
  have w: "of_int (bar_width - 2) \<le> (0::rat)" using assms by simp
  have m: "0 \<le> min v 100" using assms by simp
  have "of_int (bar_width - 2) * min v 100 \<le> 0"
    using w m by (simp add: mult_nonpos_nonneg)
  then have le: "?r \<le> 0" by simp
  show ?thesis
  proof (cases "?r = 0")
    case True
    then have "fill_width bar_width v = py_int 0"
      unfolding fill_width_def by (simp only:)
    then show ?thesis by (simp add: py_int_def)
  next
    case False
    with le have "?r < 0" by (simp only: order.strict_iff_order) simp
    then have "py_int ?r = \<lceil>?r\<rceil>" by (simp add: py_int_def)
    moreover have "\<lceil>?r\<rceil> \<le> 0" using le by (simp add: ceiling_le_iff)
    ultimately show ?thesis by (simp add: fill_width_def)
  qed
qed

lemma fill_width_full:
  assumes "100 \<le> v" "2 \<le> bar_width"
  shows "fill_width bar_width v = bar_width - 2"
proof -
  from assms have "min v 100 = 100" by simp
  then have "of_int (bar_width - 2) * min v 100 / 100 = (of_int (bar_width - 2) :: rat)"
    by simp
  then have "fill_width bar_width v = py_int (of_int (bar_width - 2))"
    unfolding fill_width_def by (simp only:)
  then show ?thesis by (simp only: py_int_of_int)
qed



end
